theory Spec2Isabelle
  imports Main "HOL-Library.AList" "HOL-Library.Sublist"
begin

section \<open>Python values used by mcp\_client.py\<close>

text \<open>
  Strings are lists of characters (code points below 256). Exceptions are values: every
  \<^verbatim>\<open>raise\<close> of the program and of the calls it makes is a branch of the model, and
  \<^verbatim>\<open>except Exception as e\<close> is a case distinction on such a value.
\<close>

datatype exn =
    RemoteError string
  | ValueError string
  | TypeError string
  | IndexError string
  | AttributeError string
  | GraphRecursionError string

text \<open>\<^verbatim>\<open>str(e)\<close>, which \<^verbatim>\<open>print("...", e)\<close> writes after a blank.\<close>

fun str_exn :: "exn \<Rightarrow> string" where
  "str_exn (RemoteError s) = s"
| "str_exn (ValueError s) = s"
| "str_exn (TypeError s) = s"
| "str_exn (IndexError s) = s"
| "str_exn (AttributeError s) = s"
| "str_exn (GraphRecursionError s) = s"

text \<open>\<^verbatim>\<open>str(n)\<close> for a natural number: its decimal numeral.\<close>

definition digit_char :: "nat \<Rightarrow> char" where
  "digit_char d = ''0123456789'' ! d"

fun str_nat :: "nat \<Rightarrow> string" where
  "str_nat n = (if n < 10 then [digit_char n] else str_nat (n div 10) @ [digit_char (n mod 10)])"

declare str_nat.simps [simp del]

text \<open>\<^verbatim>\<open>sep.join(xs)\<close>.\<close>

fun join :: "string \<Rightarrow> string list \<Rightarrow> string" where
  "join sep [] = []"
| "join sep [x] = x"
| "join sep (x # y # ys) = x @ sep @ join sep (y # ys)"

text \<open>
  \<^verbatim>\<open>s.strip()\<close>: the white space of Python's \<^verbatim>\<open>str.isspace\<close> below code point 256 is
  removed at both ends.
\<close>

definition is_whitespace :: "char \<Rightarrow> bool" where
  "is_whitespace c = ((of_char c :: nat) \<in> {9, 10, 11, 12, 13, 28, 29, 30, 31, 32, 133, 160})"

definition strip :: "string \<Rightarrow> string" where
  "strip s = rev (dropWhile is_whitespace (rev (dropWhile is_whitespace s)))"

text \<open>\<^verbatim>\<open>s.lower()\<close> on code points below 256.\<close>

definition lower_char :: "char \<Rightarrow> char" where
  "lower_char c =
     (let n = (of_char c :: nat)
      in if (65 \<le> n \<and> n \<le> 90) \<or> (192 \<le> n \<and> n \<le> 222 \<and> n \<noteq> 215)
         then char_of (n + 32) else c)"

definition lower :: "string \<Rightarrow> string" where
  "lower s = map lower_char s"

text \<open>\<^verbatim>\<open>s.startswith(p)\<close>.\<close>

definition startswith :: "string \<Rightarrow> string \<Rightarrow> bool" where
  "startswith s p = (take (length p) s = p)"

text \<open>
  A dict built by a comprehension \<^verbatim>\<open>{k: v for ...}\<close>: an association list in insertion
  order, where a key that comes again keeps its place and takes the new value.
  \<^verbatim>\<open>d.get(k, default)\<close> reads it.
\<close>

definition dict_of :: "('k \<times> 'v) list \<Rightarrow> ('k \<times> 'v) list" where
  "dict_of kvs = fold (\<lambda>(k, v) d. AList.update k v d) kvs []"

definition dict_get :: "('k \<times> 'v) list \<Rightarrow> 'k \<Rightarrow> 'v \<Rightarrow> 'v" where
  "dict_get d k dflt = (case map_of d k of None \<Rightarrow> dflt | Some v \<Rightarrow> v)"

text \<open>\<^verbatim>\<open>next((x for x in xs if p(x)), None)\<close>: the first element that satisfies \<open>p\<close>.\<close>

definition next_or_None :: "('a \<Rightarrow> bool) \<Rightarrow> 'a list \<Rightarrow> 'a option" where
  "next_or_None p xs = List.find p xs"

definition apostrophe :: string where
  "apostrophe = [CHR 0x27]"

definition newline :: string where
  "newline = [CHR 0x0A]"

definition dquote :: string where
  "dquote = [CHR 0x22]"


section \<open>The session with the tool server\<close>

text \<open>
  What the client reads of the server's replies: a prompt with its name and its declared
  arguments (the protocol's type makes the list optional), a resource with its name and
  locator, the messages of a rendered prompt and the content blocks of a resource.
\<close>

record prompt_argument =
  a_name :: string

record prompt =
  p_name :: string
  p_arguments :: "prompt_argument list option"

record resource =
  r_name :: string
  r_uri :: string

datatype prompt_content = TextContent string | OtherContent

datatype resource_contents = TextResourceContents string | BlobResourceContents string

text \<open>
  The server is not part of the program: its reply to each call is a parameter. A call can
  fail (\<open>Inl\<close>, a connection or protocol failure) or give a result (\<open>Inr\<close>). Each handler
  makes each call at most once, so one reply per kind of call describes the server during
  one command.
\<close>

record session =
  session_list_prompts :: "exn + prompt list"
  session_get_prompt :: "string \<Rightarrow> (string \<times> string) list \<Rightarrow> exn + prompt_content list"
  session_list_resources :: "exn + resource list"
  session_read_resource :: "string \<Rightarrow> exn + resource_contents list"

text \<open>
  What a command does that can be observed: the lines it prints and the remote calls it
  makes, in order. A call is recorded when it is made, whether it fails or not.
\<close>

datatype event =
    Print string
  | ListPrompts
  | GetPrompt string "(string \<times> string) list"
  | ListResources
  | ReadResource string
  | AgentInvoke string string

text \<open>How a handler ends: it returns, or an exception leaves it.\<close>

datatype outcome = Returned | Raised exn


section \<open>Resources\<close>

text \<open>
  \<^verbatim>\<open>list_resources(session)\<close>: the listing is printed with 1-based positions; a failure of
  the call is caught and printed.
\<close>

definition list_resources :: "session \<Rightarrow> event list \<times> outcome" where
  "list_resources session =
     (case session_list_resources session of
        Inl e \<Rightarrow> ([ListResources, Print (''Failed to list resources: '' @ str_exn e)], Returned)
      | Inr resources \<Rightarrow>
          if resources = [] then
            ([ListResources, Print ''No resources found on the server.''], Returned)
          else
            ([ListResources, Print (newline @ ''Available Resources:'')]
             @ map (\<lambda>(i, r). Print (''['' @ str_nat i @ ''] '' @ r_name r)) (List.enumerate 1 resources)
             @ [Print (newline @ ''Use: /resource <name> to view its content.'')], Returned))"

text \<open>
  Lines 120 to 124 of \<^verbatim>\<open>handle_resource\<close>: the map from the decimal position to the name,
  the name the identifier stands for, and the first resource of the listing that bears
  that name.
\<close>

definition resource_map :: "resource list \<Rightarrow> (string \<times> string) list" where
  "resource_map resources =
     dict_of (map (\<lambda>(i, r). (str_nat (i + 1), r_name r)) (List.enumerate 0 resources))"

definition resolve_name :: "resource list \<Rightarrow> string \<Rightarrow> string" where
  "resolve_name resources resource_id = dict_get (resource_map resources) resource_id resource_id"

definition resolve_resource :: "resource list \<Rightarrow> string \<Rightarrow> resource option" where
  "resolve_resource resources resource_id =
     next_or_None (\<lambda>r. r_name r = resolve_name resources resource_id) resources"

text \<open>The text blocks of a resource, each under its heading; other blocks print nothing.\<close>

fun print_contents :: "resource_contents list \<Rightarrow> event list" where
  "print_contents [] = []"
| "print_contents (TextResourceContents t # cs) =
     Print (newline @ ''=== Resource Text ==='') # Print t # print_contents cs"
| "print_contents (BlobResourceContents b # cs) = print_contents cs"

text \<open>
  \<^verbatim>\<open>handle_resource(session, command)\<close>. The tokenizer \<^verbatim>\<open>shlex.split\<close> belongs to the
  standard library and is a parameter; it raises \<^verbatim>\<open>ValueError\<close> on an unbalanced quote,
  and the call stands before the \<^verbatim>\<open>try\<close>, so that exception leaves the handler.
\<close>

definition handle_resource ::
  "(string \<Rightarrow> exn + string list) \<Rightarrow> session \<Rightarrow> string \<Rightarrow> event list \<times> outcome" where
  "handle_resource shlex_split session command =
     (case shlex_split (strip command) of
        Inl e \<Rightarrow> ([], Raised e)
      | Inr parts \<Rightarrow>
          if length parts < 2 then ([Print ''Usage: /resource <name>''], Returned)
          else
            let resource_id = parts ! 1 in
            (case session_list_resources session of
               Inl e \<Rightarrow>
                 ([ListResources, Print (''Resource fetch failed: '' @ str_exn e)], Returned)
             | Inr resources \<Rightarrow>
                 (case resolve_resource resources resource_id of
                    None \<Rightarrow>
                      ([ListResources,
                        Print (''Resource '' @ apostrophe @ resource_id @ apostrophe @ '' not found.'')],
                       Returned)
                  | Some match \<Rightarrow>
                      (case session_read_resource session (r_uri match) of
                         Inl e \<Rightarrow>
                           ([ListResources, ReadResource (r_uri match),
                             Print (''Resource fetch failed: '' @ str_exn e)], Returned)
                       | Inr contents \<Rightarrow>
                           ([ListResources, ReadResource (r_uri match)] @ print_contents contents,
                            Returned)))))"


section \<open>Prompts\<close>

text \<open>
  \<^verbatim>\<open>list_prompts(session)\<close>. The call stands in no \<^verbatim>\<open>try\<close>: an exception it raises leaves
  the function.
\<close>

definition print_prompt :: "prompt \<Rightarrow> event list" where
  "print_prompt p =
     Print (newline @ ''Prompt: '' @ p_name p) #
     (case p_arguments p of
        None \<Rightarrow> [Print ''  - No arguments required.'']
      | Some args \<Rightarrow>
          if args = [] then [Print ''  - No arguments required.'']
          else map (\<lambda>arg. Print (''  - '' @ a_name arg)) args)"

definition list_prompts :: "session \<Rightarrow> event list \<times> outcome" where
  "list_prompts session =
     (case session_list_prompts session of
        Inl e \<Rightarrow> ([ListPrompts], Raised e)
      | Inr prompts \<Rightarrow>
          if prompts = [] then ([ListPrompts, Print ''No prompts found on the server.''], Returned)
          else
            ([ListPrompts, Print (newline @ ''Available Prompts and Argument Structure:'')]
             @ concat (map print_prompt prompts)
             @ [Print (newline @ ''Use: /prompt <prompt_name> '' @ dquote @ ''arg1'' @ dquote
                       @ '' '' @ dquote @ ''arg2'' @ dquote @ '' ...'')],
             Returned))"


section \<open>The agent: a graph of two nodes over a list of messages\<close>

text \<open>
  A message has a type, a content, the tool calls it requests (an assistant message only)
  and, for a tool result, the name of the tool and the identifier of the request it
  answers. The libraries give every message an identifier when it enters the state.
\<close>

record tool_call =
  tc_name :: string
  tc_args :: string
  tc_id :: string

datatype message_type = System | Human | AI | Tool

record message =
  m_id :: "nat option"
  m_type :: message_type
  m_content :: string
  m_tool_calls :: "tool_call list"
  m_name :: string
  m_tool_call_id :: string

definition SystemMessage :: "string \<Rightarrow> message" where
  "SystemMessage c =
     \<lparr>m_id = None, m_type = System, m_content = c, m_tool_calls = [], m_name = [], m_tool_call_id = []\<rparr>"

definition HumanMessage :: "string \<Rightarrow> message" where
  "HumanMessage c =
     \<lparr>m_id = None, m_type = Human, m_content = c, m_tool_calls = [], m_name = [], m_tool_call_id = []\<rparr>"

definition AIMessage :: "string \<Rightarrow> tool_call list \<Rightarrow> message" where
  "AIMessage c calls =
     \<lparr>m_id = None, m_type = AI, m_content = c, m_tool_calls = calls, m_name = [], m_tool_call_id = []\<rparr>"

definition ToolMessage :: "string \<Rightarrow> string \<Rightarrow> string \<Rightarrow> message" where
  "ToolMessage c n i =
     \<lparr>m_id = None, m_type = Tool, m_content = c, m_tool_calls = [], m_name = n, m_tool_call_id = i\<rparr>"

text \<open>
  The language model and the tools are not part of the program. The model is a function
  from the messages it is sent to its answer (a content and the tool calls it requests) or
  to a failure of the call; a tool is a name with a function from the arguments to its
  output or its failure. The third field is the number of steps the graph runtime allows
  one invocation.
\<close>

record agent =
  llm :: "message list \<Rightarrow> exn + (string \<times> tool_call list)"
  tools :: "(string \<times> (string \<Rightarrow> exn + string)) list"
  recursion_limit :: nat

subsection \<open>The reducer of the state: add\_messages\<close>

text \<open>
  Modelled from the spec: the reducer \<^verbatim>\<open>add_messages\<close>, which
  \<^verbatim>\<open>messages: Annotated[List[AnyMessage], add_messages]\<close> names, belongs to the graph
  library and is not among the sources. The spec has the new messages of a step merged into
  the history. The merge goes by identifier: the reducer gives a new identifier to every
  message that has none (a fresh \<^verbatim>\<open>uuid4\<close>; here the next numbers no message of either
  list bears), then goes through the new messages: one whose identifier is already in the
  list replaces the message at that place, any other is appended. (Removal requests, which
  the reducer also handles, are never created by the program.)
\<close>

definition next_id :: "message list \<Rightarrow> nat" where
  "next_id ms = fold (\<lambda>m n. case m_id m of None \<Rightarrow> n | Some i \<Rightarrow> max n (Suc i)) ms 0"

fun assign_ids :: "nat \<Rightarrow> message list \<Rightarrow> message list" where
  "assign_ids n [] = []"
| "assign_ids n (m # ms) =
     (case m_id m of
        None \<Rightarrow> m\<lparr>m_id := Some n\<rparr> # assign_ids (Suc n) ms
      | Some i \<Rightarrow> m # assign_ids n ms)"

definition missing_ids :: "message list \<Rightarrow> nat" where
  "missing_ids ms = length (filter (\<lambda>m. m_id m = None) ms)"

text \<open>
  Modelled from the spec: part of the same reducer, its table from identifiers to places,
  \<^verbatim>\<open>merged_by_id = {m.id: i for i, m in enumerate(merged)}\<close>; the place of an identifier
  is the last place that bears it.
\<close>

definition index_of_id :: "message list \<Rightarrow> nat option \<Rightarrow> nat option" where
  "index_of_id merged i =
     (case filter (\<lambda>j. m_id (merged ! j) = i) (rev [0..<length merged]) of
        [] \<Rightarrow> None
      | j # _ \<Rightarrow> Some j)"

fun merge_messages :: "message list \<Rightarrow> message list \<Rightarrow> message list" where
  "merge_messages merged [] = merged"
| "merge_messages merged (m # ms) =
     (case index_of_id merged (m_id m) of
        Some existing_idx \<Rightarrow> merge_messages (merged[existing_idx := m]) ms
      | None \<Rightarrow> merge_messages (merged @ [m]) ms)"

definition add_messages :: "message list \<Rightarrow> message list \<Rightarrow> message list" where
  "add_messages left right =
     (let n = next_id (left @ right);
          left' = assign_ids n left;
          right' = assign_ids (n + missing_ids left) right
      in merge_messages left' right')"

subsection \<open>The nodes\<close>

text \<open>
  \<^verbatim>\<open>chat_llm = prompt_template | llm_with_tools\<close>: the model is sent the system message and
  the whole list. \<^verbatim>\<open>chat_node\<close> returns the state with the answer under \<^verbatim>\<open>messages\<close>; that
  one message is the update the reducer merges.
\<close>

definition system_prompt :: string where
  "system_prompt = ''You are a helpful assistant that uses tools to search Wikipedia.''"

definition chat_llm_invoke :: "agent \<Rightarrow> message list \<Rightarrow> exn + message" where
  "chat_llm_invoke a messages =
     (case llm a (SystemMessage system_prompt # messages) of
        Inl e \<Rightarrow> Inl e
      | Inr (c, calls) \<Rightarrow> Inr (AIMessage c calls))"

definition chat_node :: "agent \<Rightarrow> message list \<Rightarrow> exn + message list" where
  "chat_node a state =
     (case chat_llm_invoke a state of
        Inl e \<Rightarrow> Inl e
      | Inr m \<Rightarrow> Inr [m])"

text \<open>
  Modelled from the spec: the node \<^verbatim>\<open>ToolNode(tools=tools)\<close> belongs to the graph library
  and is not among the sources. As the spec has it, for each request in the last assistant
  message the named tool is looked up and run with the arguments given, and one
  tool-result message per request is produced, in the requests' order; a tool that is
  unknown or fails gives a tool-result message that describes the failure.
\<close>

definition run_tool :: "agent \<Rightarrow> tool_call \<Rightarrow> message" where
  "run_tool a call =
     (case map_of (dict_of (tools a)) (tc_name call) of
        None \<Rightarrow>
          ToolMessage (''Error: '' @ tc_name call @ '' is not a valid tool, try one of [''
                       @ join '', '' (map fst (dict_of (tools a))) @ ''].'')
            (tc_name call) (tc_id call)
      | Some f \<Rightarrow>
          (case f (tc_args call) of
             Inl e \<Rightarrow>
               ToolMessage (''Error: '' @ str_exn e @ newline @ '' Please fix your mistakes.'')
                 (tc_name call) (tc_id call)
           | Inr out \<Rightarrow> ToolMessage out (tc_name call) (tc_id call)))"

definition tool_node :: "agent \<Rightarrow> message list \<Rightarrow> exn + message list" where
  "tool_node a state =
     (if state = [] then Inl (ValueError ''No message found in input'')
      else if m_type (last state) \<noteq> AI then Inl (ValueError ''Last message is not an AIMessage'')
      else Inr (map (run_tool a) (m_tool_calls (last state))))"

text \<open>
  Modelled from the spec: the routing function \<^verbatim>\<open>tools_condition\<close> belongs to the graph
  library and is not among the sources. It is the spec's transition rule: \<^verbatim>\<open>"tools"\<close>
  when the last message is an assistant message with at least one tool call,
  \<^verbatim>\<open>"__end__"\<close> otherwise.
\<close>

definition tools_condition :: "message list \<Rightarrow> exn + string" where
  "tools_condition state =
     (if state = [] then Inl (ValueError ''No messages found in input state to tool_edge'')
      else if m_type (last state) = AI \<and> length (m_tool_calls (last state)) > 0
      then Inr ''tools'' else Inr ''__end__'')"

subsection \<open>The graph built by create\_graph\<close>

datatype node = START | CHAT_NODE | TOOL_NODE | END

text \<open>
  \<^verbatim>\<open>add_edge(START, "chat_node")\<close>, \<^verbatim>\<open>add_edge("tool_node", "chat_node")\<close> and
  \<^verbatim>\<open>add_conditional_edges("chat_node", tools_condition, {...})\<close>.
\<close>

definition edges :: "(node \<times> node) list" where
  "edges = [(START, CHAT_NODE), (TOOL_NODE, CHAT_NODE)]"

definition conditional_edges :: "(node \<times> (string \<times> node) list) list" where
  "conditional_edges = [(CHAT_NODE, [(''tools'', TOOL_NODE), (''__end__'', END)])]"

definition next_node :: "node \<Rightarrow> message list \<Rightarrow> exn + node" where
  "next_node n state =
     (case map_of conditional_edges n of
        Some path_map \<Rightarrow>
          (case tools_condition state of
             Inl e \<Rightarrow> Inl e
           | Inr key \<Rightarrow>
               (case map_of path_map key of
                  None \<Rightarrow> Inl (ValueError ''unknown branch'')
                | Some n' \<Rightarrow> Inr n'))
      | None \<Rightarrow>
          (case map_of edges n of
             None \<Rightarrow> Inl (ValueError ''no edge'')
           | Some n' \<Rightarrow> Inr n'))"

definition run_node :: "agent \<Rightarrow> node \<Rightarrow> message list \<Rightarrow> exn + message list" where
  "run_node a n state =
     (case n of
        CHAT_NODE \<Rightarrow> chat_node a state
      | TOOL_NODE \<Rightarrow> tool_node a state
      | _ \<Rightarrow> Inr [])"

text \<open>
  Modelled from the spec: the runtime that runs the compiled graph belongs to the graph
  library and is not among the sources. One step of it: the node runs on the state, its
  update is merged by the reducer, and the edges give the node that runs next.
\<close>

definition step :: "agent \<Rightarrow> node \<Rightarrow> message list \<Rightarrow> exn + (node \<times> message list)" where
  "step a n state =
     (case run_node a n state of
        Inl e \<Rightarrow> Inl e
      | Inr upd \<Rightarrow>
          (let state' = add_messages state upd
           in case next_node n state' of
                Inl e \<Rightarrow> Inl e
              | Inr n' \<Rightarrow> Inr (n', state')))"

text \<open>
  Modelled from the spec: the loop of the same runtime. The run from a node ends at \<open>END\<close>
  with the state, or with the exception a node raised, or with the runtime's
  \<^verbatim>\<open>GraphRecursionError\<close> when the steps allowed are used up. The first component lists the
  node and state after each step.
\<close>

fun run_graph ::
  "agent \<Rightarrow> nat \<Rightarrow> node \<Rightarrow> message list \<Rightarrow> (node \<times> message list) list \<times> (exn + message list)" where
  "run_graph a 0 n state =
     (if n = END then ([], Inr state)
      else ([], Inl (GraphRecursionError ''Recursion limit reached'')))"
| "run_graph a (Suc k) n state =
     (if n = END then ([], Inr state)
      else
        (case step a n state of
           Inl e \<Rightarrow> ([], Inl e)
         | Inr (n', state') \<Rightarrow>
             (let (tr, r) = run_graph a k n' state' in ((n', state') # tr, r))))"

subsection \<open>Invocation with the checkpointer\<close>

text \<open>
  Modelled from the spec: the checkpointer of \<^verbatim>\<open>graph.compile(checkpointer=MemorySaver())\<close>
  and the method \<^verbatim>\<open>ainvoke\<close> belong to the graph library and are not among the sources.
  The saver keeps, per thread identifier, the state after the last step that completed.
  \<^verbatim>\<open>agent.ainvoke(input, config)\<close> merges the input into the state saved for the thread of
  the configuration, runs the graph from the node after \<open>START\<close> and returns the final
  state, or raises.
\<close>

type_synonym checkpoints = "string \<Rightarrow> message list option"

definition ainvoke ::
  "agent \<Rightarrow> checkpoints \<Rightarrow> string \<Rightarrow> message list \<Rightarrow> checkpoints \<times> (exn + message list)" where
  "ainvoke a saver thread_id inp =
     (let saved = (case saver thread_id of None \<Rightarrow> [] | Some ms \<Rightarrow> ms);
          state0 = add_messages saved inp
      in case next_node START state0 of
           Inl e \<Rightarrow> (saver(thread_id \<mapsto> state0), Inl e)
         | Inr entry \<Rightarrow>
             (let (tr, r) = run_graph a (recursion_limit a) entry state0
              in (saver(thread_id \<mapsto> snd (last ((entry, state0) # tr))), r)))"

text \<open>\<^verbatim>\<open>response["messages"][-1].content\<close>.\<close>

definition last_content :: "message list \<Rightarrow> exn + string" where
  "last_content ms =
     (if ms = [] then Inl (IndexError ''list index out of range'') else Inr (m_content (last ms)))"


section \<open>Prompt invocation\<close>

text \<open>
  \<^verbatim>\<open>handle_prompt(session, tools, command, agent)\<close> (the parameter \<^verbatim>\<open>tools\<close> is not used).
  Everything after the tokenizer runs under \<^verbatim>\<open>try ... except Exception\<close>. The function
  returns what was observed, the checkpoints of the agent afterwards and how it ended.
\<close>

definition prompt_text_of :: "prompt_content list \<Rightarrow> exn + string" where
  "prompt_text_of messages =
     (case messages of
        [] \<Rightarrow> Inl (IndexError ''list index out of range'')
      | TextContent t # _ \<Rightarrow> Inr t
      | OtherContent # _ \<Rightarrow> Inl (AttributeError ''object has no attribute text''))"

definition invocation_failed :: "exn \<Rightarrow> event" where
  "invocation_failed e = Print (''Prompt invocation failed: '' @ str_exn e)"

definition handle_prompt ::
  "(string \<Rightarrow> exn + string list) \<Rightarrow> session \<Rightarrow> agent \<Rightarrow> checkpoints \<Rightarrow> string
     \<Rightarrow> event list \<times> checkpoints \<times> outcome" where
  "handle_prompt shlex_split session a saver command =
     (case shlex_split (strip command) of
        Inl e \<Rightarrow> ([], saver, Raised e)
      | Inr parts \<Rightarrow>
          if length parts < 2 then
            ([Print (''Usage: /prompt <name> '' @ dquote @ ''args>'' @ dquote)], saver, Returned)
          else
            let prompt_name = parts ! 1; args = drop 2 parts in
            (case session_list_prompts session of
               Inl e \<Rightarrow> ([ListPrompts, invocation_failed e], saver, Returned)
             | Inr prompts \<Rightarrow>
                 (case next_or_None (\<lambda>p. p_name p = prompt_name) prompts of
                    None \<Rightarrow>
                      ([ListPrompts,
                        Print (''Prompt '' @ apostrophe @ prompt_name @ apostrophe @ '' not found.'')],
                       saver, Returned)
                  | Some match \<Rightarrow>
                      (case p_arguments match of
                         None \<Rightarrow>
                           ([ListPrompts,
                             invocation_failed (TypeError (''object of type '' @ apostrophe @ ''NoneType''
                                                @ apostrophe @ '' has no len()''))],
                            saver, Returned)
                       | Some arguments \<Rightarrow>
                           if length args \<noteq> length arguments then
                             ([ListPrompts,
                               Print (''Expected '' @ str_nat (length arguments) @ '' arguments: ''
                                      @ join '', '' (map a_name arguments))],
                              saver, Returned)
                           else
                             let arg_values = dict_of (zip (map a_name arguments) args) in
                             (case session_get_prompt session prompt_name arg_values of
                                Inl e \<Rightarrow>
                                  ([ListPrompts, GetPrompt prompt_name arg_values, invocation_failed e],
                                   saver, Returned)
                              | Inr messages \<Rightarrow>
                                  (case prompt_text_of messages of
                                     Inl e \<Rightarrow>
                                       ([ListPrompts, GetPrompt prompt_name arg_values,
                                         invocation_failed e], saver, Returned)
                                   | Inr prompt_text \<Rightarrow>
                                       (case ainvoke a saver ''wiki-session'' [HumanMessage prompt_text] of
                                          (saver', Inl e) \<Rightarrow>
                                            ([ListPrompts, GetPrompt prompt_name arg_values,
                                              AgentInvoke ''wiki-session'' prompt_text,
                                              invocation_failed e], saver', Returned)
                                        | (saver', Inr final) \<Rightarrow>
                                            (case last_content final of
                                               Inl e \<Rightarrow>
                                                 ([ListPrompts, GetPrompt prompt_name arg_values,
                                                   AgentInvoke ''wiki-session'' prompt_text,
                                                   Print (newline @ ''=== Prompt Result ===''),
                                                   invocation_failed e], saver', Returned)
                                             | Inr c \<Rightarrow>
                                                 ([ListPrompts, GetPrompt prompt_name arg_values,
                                                   AgentInvoke ''wiki-session'' prompt_text,
                                                   Print (newline @ ''=== Prompt Result ===''),
                                                   Print c], saver', Returned)))))))))"


section \<open>The interactive loop\<close>

text \<open>
  The body of \<^verbatim>\<open>while True\<close> in \<^verbatim>\<open>main\<close>, for one line read by \<^verbatim>\<open>input\<close>: the loop goes on,
  ends at \<^verbatim>\<open>break\<close>, or an exception leaves it and ends the process. Only the call of the
  agent stands in a \<^verbatim>\<open>try\<close> here; the four commands are called bare.
\<close>

datatype loop_outcome = Continue | Break | Crash exn

definition after_call :: "outcome \<Rightarrow> loop_outcome" where
  "after_call r = (case r of Returned \<Rightarrow> Continue | Raised e \<Rightarrow> Crash e)"

definition main_step ::
  "(string \<Rightarrow> exn + string list) \<Rightarrow> agent \<Rightarrow> checkpoints \<Rightarrow> session \<Rightarrow> string
     \<Rightarrow> event list \<times> checkpoints \<times> loop_outcome" where
  "main_step shlex_split a saver session line =
     (let user_input = strip line in
      if lower user_input \<in> {''exit'', ''quit'', ''q''} then ([], saver, Break)
      else if startswith user_input ''/prompts'' then
        (case list_prompts session of (ev, r) \<Rightarrow> (ev, saver, after_call r))
      else if startswith user_input ''/prompt'' then
        (case handle_prompt shlex_split session a saver user_input of
           (ev, saver', r) \<Rightarrow> (ev, saver', after_call r))
      else if startswith user_input ''/resources'' then
        (case list_resources session of (ev, r) \<Rightarrow> (ev, saver, after_call r))
      else if startswith user_input ''/resource'' then
        (case handle_resource shlex_split session user_input of (ev, r) \<Rightarrow> (ev, saver, after_call r))
      else
        (case ainvoke a saver ''wiki-session'' [HumanMessage user_input] of
           (saver', Inl e) \<Rightarrow>
             ([AgentInvoke ''wiki-session'' user_input, Print (''Error: '' @ str_exn e)],
              saver', Continue)
         | (saver', Inr final) \<Rightarrow>
             (case last_content final of
                Inl e \<Rightarrow>
                  ([AgentInvoke ''wiki-session'' user_input, Print (''Error: '' @ str_exn e)],
                   saver', Continue)
              | Inr c \<Rightarrow>
                  ([AgentInvoke ''wiki-session'' user_input, Print (''AI: '' @ c)],
                   saver', Continue))))"

text \<open>
  The loop over the lines typed, each with the server's replies while its command runs.
  It stops at the first line that ends it.
\<close>

fun main_loop ::
  "(string \<Rightarrow> exn + string list) \<Rightarrow> agent \<Rightarrow> checkpoints \<Rightarrow> (session \<times> string) list
     \<Rightarrow> event list \<times> checkpoints \<times> loop_outcome" where
  "main_loop shlex_split a saver [] = ([], saver, Continue)"
| "main_loop shlex_split a saver ((session, line) # rest) =
     (case main_step shlex_split a saver session line of
        (ev, saver', Continue) \<Rightarrow>
          (case main_loop shlex_split a saver' rest of
             (ev', saver'', r) \<Rightarrow> (ev @ ev', saver'', r))
      | (ev, saver', r) \<Rightarrow> (ev, saver', r))"


section \<open>Auxiliary notions for the proofs\<close>

text \<open>The number a decimal numeral stands for, and the keys of the position map.\<close>

definition nat_of_digits :: "string \<Rightarrow> nat" where
  "nat_of_digits s = foldl (\<lambda>n c. 10 * n + (of_char c - 48)) 0 s"

definition position_keys :: "nat \<Rightarrow> string list" where
  "position_keys n = map (\<lambda>i. str_nat (i + 1)) [0..<n]"

text \<open>Every message of the list bears an identifier, as after any merge by the reducer.\<close>

definition all_ids :: "message list \<Rightarrow> bool" where
  "all_ids ms = list_all (\<lambda>m. m_id m \<noteq> None) ms"


text \<open>The list ends with an assistant message that requests at least one tool.\<close>

definition requests_tools :: "message list \<Rightarrow> bool" where
  "requests_tools s = (s \<noteq> [] \<and> m_type (last s) = AI \<and> m_tool_calls (last s) \<noteq> [])"


section \<open>Example data\<close>

text \<open>
  For the examples the tokenizer is only needed on commands without quotes and
  backslashes, where \<^verbatim>\<open>shlex.split\<close> gives the runs of characters between blanks.
\<close>

fun blank_tokens :: "string \<Rightarrow> string \<Rightarrow> string list" where
  "blank_tokens cur [] = (if cur = [] then [] else [cur])"
| "blank_tokens cur (c # cs) =
     (if c = CHR '' '' then (if cur = [] then blank_tokens [] cs else cur # blank_tokens [] cs)
      else blank_tokens (cur @ [c]) cs)"

definition split_unquoted :: "string \<Rightarrow> exn + string list" where
  "split_unquoted s = Inr (blank_tokens [] s)"

definition wiki_prompts :: "prompt list" where
  "wiki_prompts =
     [\<lparr>p_name = ''summarize'', p_arguments = Some [\<lparr>a_name = ''topic''\<rparr>]\<rparr>,
      \<lparr>p_name = ''compare'', p_arguments = Some [\<lparr>a_name = ''first''\<rparr>, \<lparr>a_name = ''second''\<rparr>]\<rparr>]"

definition wiki_resources :: "resource list" where
  "wiki_resources =
     [\<lparr>r_name = ''notes'', r_uri = ''memo://notes''\<rparr>,
      \<lparr>r_name = ''topics'', r_uri = ''memo://topics''\<rparr>,
      \<lparr>r_name = ''log'', r_uri = ''memo://log''\<rparr>]"

definition wiki_session :: session where
  "wiki_session =
     \<lparr>session_list_prompts = Inr wiki_prompts,
      session_get_prompt = (\<lambda>n args. Inr [TextContent (''Please '' @ n)]),
      session_list_resources = Inr wiki_resources,
      session_read_resource = (\<lambda>u. Inr [TextResourceContents (''text of '' @ u)])\<rparr>"

text \<open>A listing whose second resource is named like the first position.\<close>

definition numbered_resources :: "resource list" where
  "numbered_resources =
     [\<lparr>r_name = ''notes'', r_uri = ''memo://first''\<rparr>,
      \<lparr>r_name = ''1'', r_uri = ''memo://second''\<rparr>]"

definition numbered_session :: session where
  "numbered_session = wiki_session\<lparr>session_list_resources := Inr numbered_resources\<rparr>"

text \<open>A listing with two resources of one name, and a third named like the second position.\<close>

definition twin_resources :: "resource list" where
  "twin_resources =
     [\<lparr>r_name = ''draft'', r_uri = ''memo://old''\<rparr>,
      \<lparr>r_name = ''draft'', r_uri = ''memo://new''\<rparr>,
      \<lparr>r_name = ''2'', r_uri = ''memo://two''\<rparr>]"

definition twin_session :: session where
  "twin_session = wiki_session\<lparr>session_list_resources := Inr twin_resources\<rparr>"

text \<open>A listing whose first resource is named like the second position.\<close>

definition crossed_resources :: "resource list" where
  "crossed_resources =
     [\<lparr>r_name = ''2'', r_uri = ''memo://a''\<rparr>,
      \<lparr>r_name = ''notes'', r_uri = ''memo://b''\<rparr>]"

definition crossed_session :: session where
  "crossed_session = wiki_session\<lparr>session_list_resources := Inr crossed_resources\<rparr>"

text \<open>A server whose prompt \<open>ping\<close> comes without a list of arguments.\<close>

definition bare_prompts :: "prompt list" where
  "bare_prompts = [\<lparr>p_name = ''ping'', p_arguments = None\<rparr>]"

definition bare_session :: session where
  "bare_session = wiki_session\<lparr>session_list_prompts := Inr bare_prompts\<rparr>"

text \<open>A server whose connection is lost: every call fails.\<close>

definition lost_session :: session where
  "lost_session =
     \<lparr>session_list_prompts = Inl (RemoteError ''Connection closed''),
      session_get_prompt = (\<lambda>n args. Inl (RemoteError ''Connection closed'')),
      session_list_resources = Inl (RemoteError ''Connection closed''),
      session_read_resource = (\<lambda>u. Inl (RemoteError ''Connection closed''))\<rparr>"

text \<open>
  A model that answers at once, and a model that first asks for two searches and answers
  once the last message is a tool result.
\<close>

definition plain_agent :: agent where
  "plain_agent = \<lparr>llm = (\<lambda>ms. Inr (''Paris'', [])), tools = [], recursion_limit = 25\<rparr>"

definition search_calls :: "tool_call list" where
  "search_calls =
     [\<lparr>tc_name = ''search'', tc_args = ''capital of France'', tc_id = ''call-1''\<rparr>,
      \<lparr>tc_name = ''lookup'', tc_args = ''Paris'', tc_id = ''call-2''\<rparr>]"

definition search_agent :: agent where
  "search_agent =
     \<lparr>llm = (\<lambda>ms. if m_type (last ms) = Tool then Inr (''Paris'', []) else Inr ([], search_calls)),
      tools = [(''search'', \<lambda>q. Inr (''snippet about '' @ q))],
      recursion_limit = 25\<rparr>"

definition lost_agent :: agent where
  "lost_agent = \<lparr>llm = (\<lambda>ms. Inl (RemoteError ''Connection error'')), tools = [], recursion_limit = 25\<rparr>"

text \<open>A history with one question, and the same after the model asked for the searches.\<close>

definition asked :: "message list" where
  "asked = add_messages [] [HumanMessage ''What is the capital of France?'']"

definition requested :: "message list" where
  "requested = add_messages asked [AIMessage [] search_calls]"


section \<open>Proofs\<close>

subsection \<open>Decimal numerals and the position map\<close>

lemma of_char_digit: "d < 10 \<Longrightarrow> (of_char (digit_char d) :: nat) = 48 + d"
proof -
  assume "d < 10"
  then consider "d = 0" | "d = 1" | "d = 2" | "d = 3" | "d = 4" | "d = 5" | "d = 6"
    | "d = 7" | "d = 8" | "d = 9"
    by atomize_elim arith
  then show ?thesis
    by cases (simp_all add: digit_char_def)
qed

lemma nat_of_digits_str_nat: "nat_of_digits (str_nat n) = n"
proof (induction n rule: str_nat.induct)
  case (1 n)
  show ?case
  proof (cases "n < 10")
    case True
    then show ?thesis
      by (subst str_nat.simps) (simp add: nat_of_digits_def of_char_digit)
  next
    case False
    with 1 have ih: "nat_of_digits (str_nat (n div 10)) = n div 10" by simp
    have "nat_of_digits (str_nat n) = 10 * nat_of_digits (str_nat (n div 10)) + n mod 10"
      using False
      by (subst str_nat.simps) (simp add: nat_of_digits_def of_char_digit)
    then show ?thesis using ih by simp
  qed
qed

lemma str_nat_inj: "str_nat m = str_nat n \<Longrightarrow> m = n"
  by (metis nat_of_digits_str_nat)

lemma map_of_fold_update:
  "map_of (fold (\<lambda>(k, v) d. AList.update k v d) kvs d) k =
     (case map_of (rev kvs) k of Some v \<Rightarrow> Some v | None \<Rightarrow> map_of d k)"
proof (induction kvs arbitrary: d)
  case Nil
  then show ?case by simp
next
  case (Cons kv kvs)
  obtain a b where kv: "kv = (a, b)" by (cases kv)
  show ?case
    by (simp add: kv Cons.IH AList.update_conv' map_add_def split: option.splits)
qed

lemma map_of_dict_of: "map_of (dict_of kvs) = map_of (rev kvs)"
  by (rule ext) (simp add: dict_of_def map_of_fold_update split: option.splits)

lemma map_of_rev_distinct: "distinct (map fst xs) \<Longrightarrow> map_of (rev xs) = map_of xs"
proof (induction xs)
  case Nil
  then show ?case by simp
next
  case (Cons x xs)
  then have d: "fst x \<notin> fst ` set xs" and ih: "map_of (rev xs) = map_of xs" by auto
  have "map_of (rev (x # xs)) = map_of [x] ++ map_of (rev xs)"
    by (simp add: map_of_append del: map_of.simps)
  also have "\<dots> = map_of [x] ++ map_of xs" by (simp only: ih)
  also have "\<dots> = map_of (x # xs)"
  proof (rule ext)
    fix k show "(map_of [x] ++ map_of xs) k = map_of (x # xs) k"
    proof (cases "map_of xs k")
      case None
      then show ?thesis by (cases x) (simp add: map_add_def)
    next
      case (Some v)
      then have "k \<in> fst ` set xs" by (metis map_of_eq_None_iff option.distinct(1))
      with d have "k \<noteq> fst x" by blast
      with Some show ?thesis by (cases x) (simp add: map_add_def)
    qed
  qed
  finally show ?case .
qed

lemma resource_map_pairs:
  "map (\<lambda>(i, r). (str_nat (i + 1), r_name r)) (List.enumerate 0 rs)
     = zip (position_keys (length rs)) (map r_name rs)"
  by (simp add: enumerate_eq_zip position_keys_def zip_map_map zip_map1 zip_map2 case_prod_beta)

lemma distinct_position_keys: "distinct (position_keys n)"
  by (auto simp: position_keys_def distinct_map inj_on_def dest: str_nat_inj)

lemma set_position_keys: "set (position_keys n) = str_nat ` {1..n}"
proof -
  have "(\<lambda>i. Suc i) ` {0..<n} = {1..n}"
    by (auto simp: image_iff)
  then have "(\<lambda>i. str_nat (Suc i)) ` {0..<n} = str_nat ` {1..n}"
    by (metis image_image)
  then show ?thesis by (simp add: position_keys_def)
qed

lemma map_of_resource_map:
  "map_of (resource_map rs) = map_of (zip (position_keys (length rs)) (map r_name rs))"
  unfolding resource_map_def map_of_dict_of resource_map_pairs
  using distinct_position_keys [of "length rs"]
  by (intro map_of_rev_distinct) (simp add: position_keys_def)

lemma resource_map_position:
  assumes "1 \<le> i" "i \<le> length rs"
  shows "map_of (resource_map rs) (str_nat i) = Some (r_name (rs ! (i - 1)))"
proof -
  have "map_of (zip (position_keys (length rs)) (map r_name rs)) (position_keys (length rs) ! (i - 1))
          = Some (map r_name rs ! (i - 1))"
    using assms distinct_position_keys [of "length rs"]
    by (intro map_of_zip_nth) (simp_all add: position_keys_def)
  moreover have "i - 1 < length rs" "Suc (i - 1) = i"
    using assms by simp_all
  then have "position_keys (length rs) ! (i - 1) = str_nat i"
    by (simp add: position_keys_def)
  ultimately show ?thesis using assms by (simp add: map_of_resource_map)
qed

lemma resource_map_other:
  assumes "k \<notin> str_nat ` {1..length rs}"
  shows "map_of (resource_map rs) k = None"
proof -
  have "k \<notin> set (position_keys (length rs))"
    using assms by (simp only: set_position_keys not_False_eq_True)
  then have "k \<notin> fst ` set (zip (position_keys (length rs)) (map r_name rs))"
    by (auto dest: set_zip_leftD)
  then show ?thesis
    by (simp add: map_of_resource_map map_of_eq_None_iff)
qed

lemma resolve_name_position:
  "1 \<le> i \<Longrightarrow> i \<le> length rs \<Longrightarrow> resolve_name rs (str_nat i) = r_name (rs ! (i - 1))"
  by (simp add: resolve_name_def dict_get_def resource_map_position)

lemma resolve_name_other:
  "k \<notin> str_nat ` {1..length rs} \<Longrightarrow> resolve_name rs k = k"
  by (simp add: resolve_name_def dict_get_def resource_map_other)

lemma resolve_resource_position:
  assumes "1 \<le> i" "i \<le> length rs"
  shows "resolve_resource rs (str_nat i) = List.find (\<lambda>r. r_name r = r_name (rs ! (i - 1))) rs"
  using assms by (simp add: resolve_resource_def next_or_None_def resolve_name_position)

lemma resolve_resource_position_found:
  assumes "1 \<le> i" "i \<le> length rs"
  shows "resolve_resource rs (str_nat i) \<noteq> None"
proof -
  have "i - 1 < length rs" using assms by simp
  then have "\<exists>x. x \<in> set rs \<and> r_name x = r_name (rs ! (i - 1))"
    by (intro exI [of _ "rs ! (i - 1)"]) simp
  then show ?thesis
    by (simp only: resolve_resource_position [OF assms] find_None_iff not_not)
qed

text \<open>The handler once the command is tokenized and the listing fetched.\<close>

lemma handle_resource_listed:
  assumes "shlex_split (strip command) = Inr parts" and "2 \<le> length parts"
    and "session_list_resources session = Inr rs"
  shows "handle_resource shlex_split session command =
     (case resolve_resource rs (parts ! 1) of
        None \<Rightarrow>
          ([ListResources,
            Print (''Resource '' @ apostrophe @ parts ! 1 @ apostrophe @ '' not found.'')], Returned)
      | Some match \<Rightarrow>
          (case session_read_resource session (r_uri match) of
             Inl e \<Rightarrow>
               ([ListResources, ReadResource (r_uri match),
                 Print (''Resource fetch failed: '' @ str_exn e)], Returned)
           | Inr contents \<Rightarrow>
               ([ListResources, ReadResource (r_uri match)] @ print_contents contents, Returned)))"
  using assms by (simp add: handle_resource_def Let_def del: One_nat_def)

lemma handle_resource_found:
  assumes "shlex_split (strip command) = Inr parts" and "2 \<le> length parts"
    and "session_list_resources session = Inr rs"
    and "resolve_resource rs (parts ! 1) = Some match"
  shows "take 2 (fst (handle_resource shlex_split session command))
           = [ListResources, ReadResource (r_uri match)]"
  using assms by (simp add: handle_resource_listed split: sum.splits)

lemmas example_defs =
  split_unquoted_def strip_def is_whitespace_def wiki_session_def wiki_resources_def
  wiki_prompts_def numbered_session_def numbered_resources_def twin_session_def
  twin_resources_def lost_session_def crossed_session_def crossed_resources_def
  apostrophe_def newline_def dquote_def

lemmas resource_defs =
  handle_resource_def resolve_resource_def resolve_name_def resource_map_def dict_of_def
  dict_get_def next_or_None_def str_nat.simps digit_char_def

subsection \<open>Resolution by position and by name\<close>

text \<open>
  Claim C2, as amended. If the identifier is the decimal numeral of a position \<open>i\<close> of the
  listing (counted from 1) and the name of the resource at that position is not itself the
  numeral of a position of the listing, then \<^verbatim>\<open>handle_resource\<close> resolves the numeral and
  the name to the same resource, finds it, and behaves the same on both commands.
\<close>

theorem position_resolves_like_name:
  assumes "session_list_resources session = Inr rs"
    and "1 \<le> i" and "i \<le> length rs"
    and "r_name (rs ! (i - 1)) \<notin> str_nat ` {1..length rs}"
    and "shlex_split (strip by_position) = Inr p" and "2 \<le> length p" and "p ! 1 = str_nat i"
    and "shlex_split (strip by_name) = Inr q" and "2 \<le> length q"
    and "q ! 1 = r_name (rs ! (i - 1))"
  shows "resolve_resource rs (p ! 1) = resolve_resource rs (q ! 1)
       \<and> resolve_resource rs (p ! 1) \<noteq> None
       \<and> handle_resource shlex_split session by_position
           = handle_resource shlex_split session by_name"
proof -
  have same: "resolve_resource rs (p ! 1) = resolve_resource rs (q ! 1)"
    using assms
    by (simp add: resolve_resource_def resolve_name_position resolve_name_other del: One_nat_def)
  have found: "resolve_resource rs (p ! 1) \<noteq> None"
    using assms resolve_resource_position_found [of i rs] by simp
  then obtain m where m: "resolve_resource rs (p ! 1) = Some m" by blast
  have "handle_resource shlex_split session by_position
          = handle_resource shlex_split session by_name"
    using m same assms(1,5,6,8,9)
    by (simp add: handle_resource_listed [of shlex_split by_position p session rs]
                  handle_resource_listed [of shlex_split by_name q session rs] del: One_nat_def)
  with same found show ?thesis by blast
qed

theorem position_resolves_like_name_witness:
  "session_list_resources wiki_session = Inr wiki_resources
   \<and> (1::nat) \<le> 2 \<and> 2 \<le> length wiki_resources
   \<and> r_name (wiki_resources ! (2 - 1)) \<notin> str_nat ` {1..length wiki_resources}
   \<and> split_unquoted (strip ''/resource 2'') = Inr [''/resource'', ''2'']
   \<and> split_unquoted (strip ''/resource topics'') = Inr [''/resource'', ''topics'']
   \<and> resolve_resource wiki_resources ''2'' = Some \<lparr>r_name = ''topics'', r_uri = ''memo://topics''\<rparr>
   \<and> handle_resource split_unquoted wiki_session ''/resource 2''
       = handle_resource split_unquoted wiki_session ''/resource topics''"
proof -
  have h1: "session_list_resources wiki_session = Inr wiki_resources"
    by (simp add: wiki_session_def)
  have h2: "(1::nat) \<le> 2" and h3: "2 \<le> length wiki_resources"
    by (simp_all add: wiki_resources_def)
  have keys: "position_keys (length wiki_resources) = [''1'', ''2'', ''3'']"
    by (simp add: position_keys_def wiki_resources_def str_nat.simps digit_char_def)
  have h4: "r_name (wiki_resources ! (2 - 1)) \<notin> str_nat ` {1..length wiki_resources}"
    unfolding set_position_keys [symmetric] keys by (simp add: wiki_resources_def)
  have h5: "split_unquoted (strip ''/resource 2'') = Inr [''/resource'', ''2'']"
    by (simp add: example_defs)
  have h6: "split_unquoted (strip ''/resource topics'') = Inr [''/resource'', ''topics'']"
    by (simp add: example_defs)
  have h7: "2 \<le> length [''/resource'', ''2'']" "[''/resource'', ''2''] ! 1 = str_nat 2"
    "2 \<le> length [''/resource'', ''topics'']"
    "[''/resource'', ''topics''] ! 1 = r_name (wiki_resources ! (2 - 1))"
    by (simp_all add: str_nat.simps digit_char_def wiki_resources_def)
  have r: "resolve_resource wiki_resources ''2'' = Some \<lparr>r_name = ''topics'', r_uri = ''memo://topics''\<rparr>"
    by (simp add: resource_defs wiki_resources_def)
  from position_resolves_like_name [OF h1 h2 h3 h4 h5 h7(1,2) h6 h7(3,4)] h1 h2 h3 h4 h5 h6 r
  show ?thesis by blast
qed

text \<open>
  Claim C2 as stated fails where the resource at the position is named like a position:
  in the listing \<open>notes, 1\<close> the identifier \<open>2\<close> is the second resource, whose name
  \<open>1\<close> given as identifier is the first resource.
\<close>

theorem position_resolves_like_name_counterexample:
  "session_list_resources numbered_session = Inr numbered_resources
   \<and> r_name (numbered_resources ! (2 - 1)) = ''1''
   \<and> split_unquoted (strip ''/resource 2'') = Inr [''/resource'', ''2'']
   \<and> split_unquoted (strip ''/resource 1'') = Inr [''/resource'', ''1'']
   \<and> resolve_resource numbered_resources ''2'' = Some \<lparr>r_name = ''1'', r_uri = ''memo://second''\<rparr>
   \<and> resolve_resource numbered_resources ''1'' = Some \<lparr>r_name = ''notes'', r_uri = ''memo://first''\<rparr>
   \<and> handle_resource split_unquoted numbered_session ''/resource 2''
       = ([ListResources, ReadResource ''memo://second'',
           Print (newline @ ''=== Resource Text ===''), Print ''text of memo://second''], Returned)
   \<and> handle_resource split_unquoted numbered_session ''/resource 1''
       = ([ListResources, ReadResource ''memo://first'',
           Print (newline @ ''=== Resource Text ===''), Print ''text of memo://first''], Returned)"
  by (simp add: example_defs resource_defs)

text \<open>
  Claim C10, as amended. For an identifier that is the numeral of a position \<open>i\<close> of the
  listing (also when the same text is the name of another resource), \<^verbatim>\<open>handle_resource\<close>
  takes the name of the resource at position \<open>i\<close> and reads the first resource of the
  listing bearing that name; when no earlier resource shares that name this is the resource
  at position \<open>i\<close> itself, and its locator is the one passed to the server.
\<close>

theorem position_takes_precedence:
  assumes "session_list_resources session = Inr rs"
    and "1 \<le> i" and "i \<le> length rs"
    and "shlex_split (strip command) = Inr p" and "2 \<le> length p" and "p ! 1 = str_nat i"
  shows "resolve_resource rs (p ! 1) = List.find (\<lambda>r. r_name r = r_name (rs ! (i - 1))) rs
       \<and> ((\<forall>j<i - 1. r_name (rs ! j) \<noteq> r_name (rs ! (i - 1))) \<longrightarrow>
            resolve_resource rs (p ! 1) = Some (rs ! (i - 1))
          \<and> take 2 (fst (handle_resource shlex_split session command))
              = [ListResources, ReadResource (r_uri (rs ! (i - 1)))])"
proof -
  have first: "resolve_resource rs (p ! 1) = List.find (\<lambda>r. r_name r = r_name (rs ! (i - 1))) rs"
    using assms by (simp add: resolve_resource_position del: One_nat_def)
  have "resolve_resource rs (p ! 1) = Some (rs ! (i - 1))
      \<and> take 2 (fst (handle_resource shlex_split session command))
          = [ListResources, ReadResource (r_uri (rs ! (i - 1)))]"
    if no_earlier: "\<forall>j<i - 1. r_name (rs ! j) \<noteq> r_name (rs ! (i - 1))"
  proof -
    have "i - 1 < length rs" using assms by simp
    with no_earlier have "List.find (\<lambda>r. r_name r = r_name (rs ! (i - 1))) rs = Some (rs ! (i - 1))"
      by (auto simp: find_Some_iff intro!: exI [of _ "i - 1"])
    with first have r: "resolve_resource rs (p ! 1) = Some (rs ! (i - 1))" by simp
    from handle_resource_found [of shlex_split command p session rs, OF assms(4,5,1) r] r
    show ?thesis by simp
  qed
  with first show ?thesis by blast
qed

theorem position_takes_precedence_witness:
  "session_list_resources crossed_session = Inr crossed_resources
   \<and> (1::nat) \<le> 2 \<and> 2 \<le> length crossed_resources
   \<and> split_unquoted (strip ''/resource 2'') = Inr [''/resource'', ''2'']
   \<and> r_name (crossed_resources ! 0) = ''2''
   \<and> r_name (crossed_resources ! 0) \<noteq> r_name (crossed_resources ! (2 - 1))
   \<and> resolve_resource crossed_resources ''2'' = Some \<lparr>r_name = ''notes'', r_uri = ''memo://b''\<rparr>
   \<and> take 2 (fst (handle_resource split_unquoted crossed_session ''/resource 2''))
       = [ListResources, ReadResource ''memo://b'']"
proof -
  have h1: "session_list_resources crossed_session = Inr crossed_resources"
    by (simp add: crossed_session_def)
  have h2: "(1::nat) \<le> 2" and h3: "2 \<le> length crossed_resources"
    by (simp_all add: crossed_resources_def)
  have h4: "split_unquoted (strip ''/resource 2'') = Inr [''/resource'', ''2'']"
    by (simp add: example_defs)
  have h5: "2 \<le> length [''/resource'', ''2'']" "[''/resource'', ''2''] ! 1 = str_nat 2"
    by (simp_all add: str_nat.simps digit_char_def)
  have h6: "r_name (crossed_resources ! 0) = ''2''"
    "r_name (crossed_resources ! 0) \<noteq> r_name (crossed_resources ! (2 - 1))"
    by (simp_all add: crossed_resources_def)
  then have h7: "\<forall>j<2 - 1. r_name (crossed_resources ! j) \<noteq> r_name (crossed_resources ! (2 - 1))"
    by simp
  have at2: "crossed_resources ! Suc 0 = \<lparr>r_name = ''notes'', r_uri = ''memo://b''\<rparr>"
    by (simp add: crossed_resources_def)
  from position_takes_precedence
         [of crossed_session crossed_resources 2 split_unquoted "''/resource 2''", OF h1 h2 h3 h4 h5] h7
  have "resolve_resource crossed_resources ([''/resource'', ''2''] ! 1) = Some (crossed_resources ! (2 - 1))
      \<and> take 2 (fst (handle_resource split_unquoted crossed_session ''/resource 2''))
          = [ListResources, ReadResource (r_uri (crossed_resources ! (2 - 1)))]"
    by blast
  then have "resolve_resource crossed_resources ''2'' = Some \<lparr>r_name = ''notes'', r_uri = ''memo://b''\<rparr>
      \<and> take 2 (fst (handle_resource split_unquoted crossed_session ''/resource 2''))
          = [ListResources, ReadResource ''memo://b'']"
    by (simp add: at2)
  with h1 h2 h3 h4 h6 show ?thesis by blast
qed

text \<open>
  Claim C10 as stated fails where an earlier resource shares the name of the resource at
  the position: in the listing \<open>draft, draft, 2\<close> the identifier \<open>2\<close> is a position and the
  name of the third resource; the resource read is the first one, not the one at
  position 2.
\<close>

theorem position_takes_precedence_counterexample:
  "session_list_resources twin_session = Inr twin_resources
   \<and> split_unquoted (strip ''/resource 2'') = Inr [''/resource'', ''2'']
   \<and> r_name (twin_resources ! 2) = ''2''
   \<and> twin_resources ! (2 - 1) = \<lparr>r_name = ''draft'', r_uri = ''memo://new''\<rparr>
   \<and> resolve_resource twin_resources ''2'' = Some \<lparr>r_name = ''draft'', r_uri = ''memo://old''\<rparr>
   \<and> handle_resource split_unquoted twin_session ''/resource 2''
       = ([ListResources, ReadResource ''memo://old'',
           Print (newline @ ''=== Resource Text ===''), Print ''text of memo://old''], Returned)"
  by (simp add: example_defs resource_defs)

subsection \<open>Resources that are not found\<close>

text \<open>
  Claim C8, as amended. \<^verbatim>\<open>handle_resource\<close> fetches the listing itself on every command,
  whatever was listed before. When the listing it fetches holds no resource bearing the
  name the identifier stands for, the only thing reported is that the resource was not
  found, and no content is requested from the server.
\<close>

theorem resource_not_found:
  assumes "shlex_split (strip command) = Inr p" and "2 \<le> length p"
    and "session_list_resources session = Inr rs"
    and "\<forall>r\<in>set rs. r_name r \<noteq> resolve_name rs (p ! 1)"
  shows "handle_resource shlex_split session command
           = ([ListResources,
               Print (''Resource '' @ apostrophe @ p ! 1 @ apostrophe @ '' not found.'')], Returned)"
proof -
  have "resolve_resource rs (p ! 1) = None"
    using assms(4) by (auto simp: resolve_resource_def next_or_None_def find_None_iff)
  then show ?thesis
    by (simp add: handle_resource_listed [of shlex_split command p session rs] assms(1,2,3)
             del: One_nat_def)
qed

theorem resource_not_found_witness:
  "split_unquoted (strip ''/resource diary'') = Inr [''/resource'', ''diary'']
   \<and> session_list_resources wiki_session = Inr wiki_resources
   \<and> resolve_name wiki_resources ''diary'' = ''diary''
   \<and> ''diary'' \<notin> set (map r_name wiki_resources)
   \<and> handle_resource split_unquoted wiki_session ''/resource diary''
       = ([ListResources, Print ''Resource 'diary' not found.''], Returned)"
proof -
  have h1: "split_unquoted (strip ''/resource diary'') = Inr [''/resource'', ''diary'']"
    by (simp add: example_defs)
  have h2: "2 \<le> length [''/resource'', ''diary'']" by simp
  have h3: "session_list_resources wiki_session = Inr wiki_resources"
    by (simp add: wiki_session_def)
  have n: "resolve_name wiki_resources ''diary'' = ''diary''"
    by (simp add: resource_defs wiki_resources_def)
  have m: "''diary'' \<notin> set (map r_name wiki_resources)"
    by (simp add: wiki_resources_def)
  have idx: "[''/resource'', ''diary''] ! 1 = ''diary''" by simp
  have h4: "\<forall>r\<in>set wiki_resources. r_name r \<noteq> resolve_name wiki_resources ([''/resource'', ''diary''] ! 1)"
    unfolding idx n by (simp add: wiki_resources_def)
  from resource_not_found [of split_unquoted "''/resource diary''", OF h1 h2 h3 h4]
  have "handle_resource split_unquoted wiki_session ''/resource diary''
       = ([ListResources, Print ''Resource 'diary' not found.''], Returned)"
    by (simp add: apostrophe_def)
  with h1 h3 n m show ?thesis by blast
qed

text \<open>
  Claim C8 as stated fails: in a session whose first command is \<^verbatim>\<open>/resource notes\<close>, with
  no listing command before it, the resource is found and its content is read and printed.
\<close>

theorem resource_not_found_counterexample:
  "main_loop split_unquoted plain_agent Map.empty [(wiki_session, ''/resource notes'')]
     = ([ListResources, ReadResource ''memo://notes'',
         Print (newline @ ''=== Resource Text ===''), Print ''text of memo://notes''],
        Map.empty, Continue)"
  by (simp add: main_step_def lower_def lower_char_def startswith_def after_call_def
        example_defs resource_defs Let_def)

subsection \<open>Prompt invocation with the wrong number of arguments\<close>

text \<open>
  When the prompt named in the command is found in the listing, declares a list of
  parameters, and the number of arguments given differs from the number declared,
  \<^verbatim>\<open>handle_prompt\<close> has made the listing call only, prints the expected number and the
  names of the parameters, and returns: no get-prompt call is made, the agent is not
  invoked, and the checkpoints are those it was given.
\<close>

lemma argument_count_mismatch:
  assumes "shlex_split (strip command) = Inr parts" and "2 \<le> length parts"
    and "session_list_prompts session = Inr prompts"
    and "next_or_None (\<lambda>p. p_name p = parts ! 1) prompts = Some match"
    and "p_arguments match = Some arguments"
    and "length (drop 2 parts) \<noteq> length arguments"
  shows "handle_prompt shlex_split session a saver command
           = ([ListPrompts,
               Print (''Expected '' @ str_nat (length arguments) @ '' arguments: ''
                      @ join '', '' (map a_name arguments))],
              saver, Returned)"
  using assms by (simp add: handle_prompt_def Let_def del: One_nat_def)

lemma argument_count_mismatch_example:
  "split_unquoted (strip ''/prompt compare Ada'') = Inr [''/prompt'', ''compare'', ''Ada'']
   \<and> session_list_prompts wiki_session = Inr wiki_prompts
   \<and> next_or_None (\<lambda>p. p_name p = ''compare'') wiki_prompts
       = Some \<lparr>p_name = ''compare'', p_arguments = Some [\<lparr>a_name = ''first''\<rparr>, \<lparr>a_name = ''second''\<rparr>]\<rparr>
   \<and> length (drop 2 [''/prompt'', ''compare'', ''Ada'']) \<noteq> length [\<lparr>a_name = ''first''\<rparr>, \<lparr>a_name = ''second''\<rparr>]
   \<and> handle_prompt split_unquoted wiki_session search_agent Map.empty ''/prompt compare Ada''
       = ([ListPrompts, Print ''Expected 2 arguments: first, second''], Map.empty, Returned)"
proof -
  have h1: "split_unquoted (strip ''/prompt compare Ada'') = Inr [''/prompt'', ''compare'', ''Ada'']"
    by (simp add: example_defs)
  have h2: "2 \<le> length [''/prompt'', ''compare'', ''Ada'']" by simp
  have h3: "session_list_prompts wiki_session = Inr wiki_prompts"
    by (simp add: wiki_session_def)
  have h4: "next_or_None (\<lambda>p. p_name p = [''/prompt'', ''compare'', ''Ada''] ! 1) wiki_prompts
       = Some \<lparr>p_name = ''compare'', p_arguments = Some [\<lparr>a_name = ''first''\<rparr>, \<lparr>a_name = ''second''\<rparr>]\<rparr>"
    by (simp add: next_or_None_def wiki_prompts_def)
  have h5: "p_arguments \<lparr>p_name = ''compare'', p_arguments = Some [\<lparr>a_name = ''first''\<rparr>, \<lparr>a_name = ''second''\<rparr>]\<rparr>
       = Some [\<lparr>a_name = ''first''\<rparr>, \<lparr>a_name = ''second''\<rparr>]"
    by simp
  have h6: "length (drop 2 [''/prompt'', ''compare'', ''Ada''])
              \<noteq> length [\<lparr>a_name = ''first''\<rparr>, \<lparr>a_name = ''second''\<rparr>]"
    by simp
  from argument_count_mismatch
         [of split_unquoted "''/prompt compare Ada''" _ wiki_session _ _ _ search_agent Map.empty,
          OF h1 h2 h3 h4 h5 h6]
  have "handle_prompt split_unquoted wiki_session search_agent Map.empty ''/prompt compare Ada''
       = ([ListPrompts, Print ''Expected 2 arguments: first, second''], Map.empty, Returned)"
    by (simp add: str_nat.simps digit_char_def)
  moreover have "next_or_None (\<lambda>p. p_name p = ''compare'') wiki_prompts
       = Some \<lparr>p_name = ''compare'', p_arguments = Some [\<lparr>a_name = ''first''\<rparr>, \<lparr>a_name = ''second''\<rparr>]\<rparr>"
    using h4 by simp
  ultimately show ?thesis using h1 h3 h6 by blast
qed

text \<open>
  Where the matched prompt declares no list at all, the comparison of the lengths raises;
  the handler reports the failure, and again neither the get-prompt call nor the agent
  is reached.
\<close>

lemma undeclared_arguments:
  assumes "shlex_split (strip command) = Inr parts" and "2 \<le> length parts"
    and "session_list_prompts session = Inr prompts"
    and "next_or_None (\<lambda>p. p_name p = parts ! 1) prompts = Some match"
    and "p_arguments match = None"
  shows "\<exists>e. handle_prompt shlex_split session a saver command
           = ([ListPrompts, invocation_failed e], saver, Returned)"
  using assms by (simp add: handle_prompt_def Let_def del: One_nat_def) blast

text \<open>
  Claim C1 fails on the code for a prompt that the server lists without a list of
  arguments. \<^verbatim>\<open>list_prompts\<close> prints such a prompt with the line that no arguments are
  required, so it declares none; invoked with one argument, \<^verbatim>\<open>handle_prompt\<close> raises at
  the comparison of the lengths and prints the failure of the invocation where the claim
  has the expected parameter names. No get-prompt call is made and the agent is not
  invoked.
\<close>

theorem mismatch_on_undeclared_arguments:
  "split_unquoted (strip ''/prompt ping extra'') = Inr [''/prompt'', ''ping'', ''extra'']
   \<and> session_list_prompts bare_session = Inr [\<lparr>p_name = ''ping'', p_arguments = None\<rparr>]
   \<and> fst (list_prompts bare_session) ! 2 = Print (newline @ ''Prompt: ping'')
   \<and> fst (list_prompts bare_session) ! 3 = Print ''  - No arguments required.''
   \<and> handle_prompt split_unquoted bare_session plain_agent Map.empty ''/prompt ping extra''
       = ([ListPrompts,
           Print ''Prompt invocation failed: object of type 'NoneType' has no len()''],
          Map.empty, Returned)"
  by (simp add: handle_prompt_def list_prompts_def print_prompt_def invocation_failed_def
        bare_session_def bare_prompts_def example_defs next_or_None_def Let_def)

subsection \<open>Remote failures in the loop\<close>

text \<open>
  Claim C3 fails on the code for the command \<^verbatim>\<open>/prompts\<close>: \<^verbatim>\<open>list_prompts\<close> has no
  \<^verbatim>\<open>try\<close>, and \<^verbatim>\<open>main\<close> calls it bare, so a failure of the listing call ends the loop with
  that exception.
\<close>

theorem prompts_listing_failure_ends_loop:
  "main_step split_unquoted plain_agent Map.empty lost_session ''/prompts''
     = ([ListPrompts], Map.empty, Crash (RemoteError ''Connection closed''))"
  by (simp add: main_step_def lower_def lower_char_def startswith_def after_call_def
        list_prompts_def example_defs Let_def)

text \<open>
  The other remote calls are caught where they are made: an exception leaves one step of
  the loop only from the listing of prompts or from the tokenizer.
\<close>

lemma handle_resource_raised:
  "handle_resource shlex_split session command = (ev, Raised e)
     \<Longrightarrow> shlex_split (strip command) = Inl e"
  by (auto simp: handle_resource_def Let_def split: sum.splits if_splits option.splits)

lemma handle_prompt_raised:
  "handle_prompt shlex_split session a saver command = (ev, saver', Raised e)
     \<Longrightarrow> shlex_split (strip command) = Inl e"
  by (auto simp: handle_prompt_def Let_def split: sum.splits if_splits option.splits prod.splits)

lemma list_resources_returns: "snd (list_resources session) = Returned"
  by (simp add: list_resources_def split: sum.splits)

lemma list_prompts_raised:
  "list_prompts session = (ev, Raised e) \<Longrightarrow> session_list_prompts session = Inl e"
  by (auto simp: list_prompts_def split: sum.splits if_splits)

lemma main_step_crash:
  assumes "main_step shlex_split a saver session line = (ev, saver', Crash e)"
  shows "(startswith (strip line) ''/prompts'' \<and> session_list_prompts session = Inl e)
       \<or> shlex_split (strip (strip line)) = Inl e"
proof -
  have lr: "list_resources session \<noteq> (ev', Raised e')" for ev' e'
    using list_resources_returns [of session] by (metis snd_conv outcome.distinct(1))
  show ?thesis
    using assms
    by (auto simp: main_step_def Let_def after_call_def lr
          split: if_splits prod.splits outcome.splits sum.splits
          dest: handle_resource_raised handle_prompt_raised list_prompts_raised)
qed

subsection \<open>The reducer appends messages that come without an identifier\<close>

lemma next_id_fold_ge:
  "n \<le> fold (\<lambda>m n. case m_id m of None \<Rightarrow> n | Some i \<Rightarrow> max n (Suc i)) ms n"
proof (induction ms arbitrary: n)
  case Nil
  then show ?case by simp
next
  case (Cons m ms)
  show ?case
  proof (cases "m_id m")
    case None
    then show ?thesis using Cons.IH [of n] by simp
  next
    case (Some i)
    then show ?thesis using Cons.IH [of "max n (Suc i)"] by simp
  qed
qed

lemma next_id_fold_gt:
  "m \<in> set ms \<Longrightarrow> m_id m = Some i
     \<Longrightarrow> i < fold (\<lambda>m n. case m_id m of None \<Rightarrow> n | Some i \<Rightarrow> max n (Suc i)) ms n"
proof (induction ms arbitrary: n)
  case Nil
  then show ?case by simp
next
  case (Cons x ms)
  show ?case
  proof (cases "m = x")
    case True
    with Cons.prems next_id_fold_ge [of "max n (Suc i)" ms] show ?thesis by simp
  next
    case False
    with Cons.prems have "m \<in> set ms" by simp
    from Cons.IH [OF this Cons.prems(2)] show ?thesis by (simp split: option.splits)
  qed
qed

lemma next_id_gt: "m \<in> set ms \<Longrightarrow> m_id m = Some i \<Longrightarrow> i < next_id ms"
  unfolding next_id_def by (rule next_id_fold_gt)

lemma length_assign_ids [simp]: "length (assign_ids n ms) = length ms"
  by (induction ms arbitrary: n) (auto split: option.splits)

lemma assign_ids_all_ids: "all_ids ms \<Longrightarrow> assign_ids n ms = ms"
  by (induction ms arbitrary: n) (auto simp: all_ids_def)

lemma all_ids_assign_ids: "all_ids (assign_ids n ms)"
  by (induction ms arbitrary: n) (auto simp: all_ids_def split: option.splits)

lemma missing_ids_all_ids: "all_ids ms \<Longrightarrow> missing_ids ms = 0"
  by (induction ms) (auto simp: all_ids_def missing_ids_def)

text \<open>The messages given an identifier keep everything else; those identifiers count up.\<close>

lemma assign_ids_nth:
  assumes "\<forall>m\<in>set ms. m_id m = None" and "k < length ms"
  shows "assign_ids n ms ! k = (ms ! k)\<lparr>m_id := Some (n + k)\<rparr>"
  using assms
proof (induction ms arbitrary: n k)
  case Nil
  then show ?case by simp
next
  case (Cons m ms)
  then show ?case by (cases k) auto
qed

lemma assign_ids_range:
  assumes "x \<in> set (assign_ids n ms)" and "m_id x = Some i"
  shows "(\<exists>y\<in>set ms. m_id y = Some i) \<or> (n \<le> i \<and> i < n + missing_ids ms)"
  using assms
proof (induction ms arbitrary: n)
  case Nil
  then show ?case by simp
next
  case (Cons m ms)
  show ?case
  proof (cases "m_id m")
    case None
    with Cons.prems have "x = m\<lparr>m_id := Some n\<rparr> \<or> x \<in> set (assign_ids (Suc n) ms)" by simp
    then show ?thesis
    proof
      assume "x = m\<lparr>m_id := Some n\<rparr>"
      with Cons.prems None show ?thesis by (simp add: missing_ids_def)
    next
      assume "x \<in> set (assign_ids (Suc n) ms)"
      from Cons.IH [OF this Cons.prems(2)] None show ?thesis
        by (auto simp: missing_ids_def)
    qed
  next
    case (Some j)
    with Cons.prems have "x = m \<or> x \<in> set (assign_ids n ms)" by simp
    then show ?thesis
    proof
      assume "x = m"
      with Cons.prems show ?thesis by auto
    next
      assume "x \<in> set (assign_ids n ms)"
      from Cons.IH [OF this Cons.prems(2)] Some show ?thesis
        by (auto simp: missing_ids_def)
    qed
  qed
qed

lemma assign_ids_fresh_ids:
  assumes "\<forall>m\<in>set ms. m_id m = None"
  shows "map m_id (assign_ids n ms) = map Some [n..<n + length ms]"
  using assms
proof (induction ms arbitrary: n)
  case Nil
  then show ?case by simp
next
  case (Cons m ms)
  then have ih: "map m_id (assign_ids (Suc n) ms) = map Some [Suc n..<Suc n + length ms]" by simp
  have "n < n + length (m # ms)" by simp
  then have "[n..<n + length (m # ms)] = n # [Suc n..<n + length (m # ms)]"
    by (rule upt_conv_Cons)
  moreover have "n + length (m # ms) = Suc n + length ms" by simp
  ultimately have "[n..<n + length (m # ms)] = n # [Suc n..<Suc n + length ms]"
    by (simp only:)
  moreover have "map m_id (assign_ids n (m # ms)) = Some n # map m_id (assign_ids (Suc n) ms)"
    using Cons.prems by simp
  ultimately show ?case using ih by (simp only: list.map)
qed

lemma index_of_id_None:
  "(index_of_id merged i = None) = (\<forall>m\<in>set merged. m_id m \<noteq> i)"
proof -
  have "(index_of_id merged i = None)
          = (filter (\<lambda>j. m_id (merged ! j) = i) (rev [0..<length merged]) = [])"
    by (simp add: index_of_id_def split: list.splits)
  also have "\<dots> = (\<forall>j<length merged. m_id (merged ! j) \<noteq> i)"
    by (auto simp: filter_empty_conv)
  also have "\<dots> = (\<forall>m\<in>set merged. m_id m \<noteq> i)"
    by (metis in_set_conv_nth)
  finally show ?thesis .
qed

lemma merge_messages_append:
  assumes "distinct (map m_id new)"
    and "\<forall>m\<in>set merged. \<forall>x\<in>set new. m_id m \<noteq> m_id x"
  shows "merge_messages merged new = merged @ new"
  using assms
proof (induction new arbitrary: merged)
  case Nil
  then show ?case by simp
next
  case (Cons x new)
  have none: "index_of_id merged (m_id x) = None"
    using Cons.prems(2) by (simp add: index_of_id_None)
  have "merge_messages (merged @ [x]) new = (merged @ [x]) @ new"
  proof (rule Cons.IH)
    show "distinct (map m_id new)" using Cons.prems(1) by simp
    show "\<forall>m\<in>set (merged @ [x]). \<forall>y\<in>set new. m_id m \<noteq> m_id y"
      using Cons.prems by auto
  qed
  with none show ?case by simp
qed

text \<open>
  The reducer on an update whose messages bear no identifier yet, as every update of this
  program: the update is appended, its messages numbered from an identifier that is new.
\<close>

lemma add_messages_new:
  assumes "\<forall>m\<in>set new. m_id m = None"
  shows "add_messages left new
           = assign_ids (next_id (left @ new)) left
             @ assign_ids (next_id (left @ new) + missing_ids left) new"
proof -
  let ?n = "next_id (left @ new)"
  let ?l = "assign_ids ?n left"
  let ?r = "assign_ids (?n + missing_ids left) new"
  have ids: "map m_id ?r = map Some [?n + missing_ids left..<?n + missing_ids left + length new]"
    using assms by (rule assign_ids_fresh_ids)
  have d: "distinct (map m_id ?r)"
    unfolding ids by (simp add: distinct_map)
  have "m_id m \<noteq> m_id x" if m: "m \<in> set ?l" and x: "x \<in> set ?r" for m x
  proof -
    from x have "m_id x \<in> set (map m_id ?r)" by simp
    then obtain k where k: "m_id x = Some k" "?n + missing_ids left \<le> k"
      unfolding ids by auto
    show ?thesis
    proof
      assume "m_id m = m_id x"
      with k have mk: "m_id m = Some k" by simp
      from assign_ids_range [OF m mk] show False
      proof
        assume "\<exists>y\<in>set left. m_id y = Some k"
        then obtain y where "y \<in> set (left @ new)" "m_id y = Some k" by auto
        then have "k < ?n" by (rule next_id_gt)
        with k show False by simp
      next
        assume "?n \<le> k \<and> k < ?n + missing_ids left"
        with k show False by simp
      qed
    qed
  qed
  then have "merge_messages ?l ?r = ?l @ ?r"
    using d by (intro merge_messages_append) auto
  then show ?thesis by (simp add: add_messages_def Let_def)
qed

lemma add_messages_length:
  "\<forall>m\<in>set new. m_id m = None \<Longrightarrow> length (add_messages left new) = length left + length new"
  by (simp add: add_messages_new)

lemma add_messages_append:
  assumes "\<forall>m\<in>set new. m_id m = None" and "all_ids left"
  shows "add_messages left new = left @ assign_ids (next_id (left @ new)) new"
  using assms by (simp add: add_messages_new assign_ids_all_ids missing_ids_all_ids)

lemma add_messages_all_ids:
  "\<forall>m\<in>set new. m_id m = None \<Longrightarrow> all_ids (add_messages left new)"
  using all_ids_assign_ids [of "next_id (left @ new)" left]
    all_ids_assign_ids [of "next_id (left @ new) + missing_ids left" new]
  by (simp add: add_messages_new all_ids_def)

lemma add_messages_nth_new:
  assumes "\<forall>m\<in>set new. m_id m = None" and "k < length new"
  shows "add_messages left new ! (length left + k)
           = (new ! k)\<lparr>m_id := Some (next_id (left @ new) + missing_ids left + k)\<rparr>"
  using assms by (simp add: add_messages_new nth_append assign_ids_nth)

lemma add_messages_last:
  assumes "m_id x = None"
  shows "add_messages left [x] \<noteq> []"
    and "last (add_messages left [x]) = x\<lparr>m_id := Some (next_id (left @ [x]) + missing_ids left)\<rparr>"
  using assms by (simp_all add: add_messages_new)

subsection \<open>The steps of the graph\<close>

lemma message_ids_None [simp]:
  "m_id (HumanMessage c) = None" "m_id (AIMessage c calls) = None"
  "m_id (ToolMessage c n i) = None" "m_id (SystemMessage c) = None"
  by (simp_all add: HumanMessage_def AIMessage_def ToolMessage_def SystemMessage_def)

lemma run_tool_fields [simp]:
  "m_id (run_tool a call) = None" "m_type (run_tool a call) = Tool"
  "m_name (run_tool a call) = tc_name call" "m_tool_call_id (run_tool a call) = tc_id call"
  by (simp_all add: run_tool_def ToolMessage_def split: option.splits sum.splits)

lemma run_node_no_ids: "run_node a n state = Inr upd \<Longrightarrow> \<forall>m\<in>set upd. m_id m = None"
  by (cases n)
     (auto simp: run_node_def chat_node_def chat_llm_invoke_def tool_node_def
           split: sum.splits prod.splits if_splits)

lemma next_node_simps:
  "next_node START state = Inr CHAT_NODE"
  "next_node TOOL_NODE state = Inr CHAT_NODE"
  "state \<noteq> [] \<Longrightarrow> next_node CHAT_NODE state
     = Inr (if m_type (last state) = AI \<and> m_tool_calls (last state) \<noteq> [] then TOOL_NODE else END)"
  by (simp_all add: next_node_def edges_def conditional_edges_def tools_condition_def)

text \<open>The reasoning step, when the call of the model succeeds and when it fails.\<close>

lemma step_chat:
  assumes "llm a (SystemMessage system_prompt # h) = Inr (c, calls)"
  shows "step a CHAT_NODE h
           = Inr (if calls = [] then END else TOOL_NODE, add_messages h [AIMessage c calls])"
    and "add_messages h [AIMessage c calls] \<noteq> []"
    and "m_type (last (add_messages h [AIMessage c calls])) = AI"
    and "m_content (last (add_messages h [AIMessage c calls])) = c"
    and "m_tool_calls (last (add_messages h [AIMessage c calls])) = calls"
proof -
  have l: "last (add_messages h [AIMessage c calls])
             = (AIMessage c calls)\<lparr>m_id := Some (next_id (h @ [AIMessage c calls]) + missing_ids h)\<rparr>"
    and ne: "add_messages h [AIMessage c calls] \<noteq> []"
    by (simp_all add: add_messages_last)
  show "add_messages h [AIMessage c calls] \<noteq> []" by (rule ne)
  show t: "m_type (last (add_messages h [AIMessage c calls])) = AI"
    and "m_content (last (add_messages h [AIMessage c calls])) = c"
    and k: "m_tool_calls (last (add_messages h [AIMessage c calls])) = calls"
    unfolding l by (simp_all add: AIMessage_def)
  show "step a CHAT_NODE h
           = Inr (if calls = [] then END else TOOL_NODE, add_messages h [AIMessage c calls])"
    using assms ne t k
    by (simp add: step_def run_node_def chat_node_def chat_llm_invoke_def Let_def next_node_simps)
qed

lemma step_chat_fails:
  "llm a (SystemMessage system_prompt # h) = Inl e \<Longrightarrow> step a CHAT_NODE h = Inl e"
  by (simp add: step_def run_node_def chat_node_def chat_llm_invoke_def)

text \<open>The execution step on a state that ends with an assistant message.\<close>

lemma step_tool:
  assumes "h \<noteq> []" and "m_type (last h) = AI"
  shows "step a TOOL_NODE h
           = Inr (CHAT_NODE, add_messages h (map (run_tool a) (m_tool_calls (last h))))"
  using assms by (simp add: step_def run_node_def tool_node_def Let_def next_node_simps)

lemma step_tool_next: "step a TOOL_NODE h = Inr (n', h') \<Longrightarrow> n' = CHAT_NODE"
  by (auto simp: step_def run_node_def Let_def next_node_simps split: sum.splits)

lemma step_start: "step a START h = Inr (n', h') \<Longrightarrow> n' = CHAT_NODE"
  by (auto simp: step_def run_node_def Let_def next_node_simps split: sum.splits)

lemma step_chat_cases:
  assumes "step a CHAT_NODE h = Inr (n', h')"
  obtains c calls where "llm a (SystemMessage system_prompt # h) = Inr (c, calls)"
    and "h' = add_messages h [AIMessage c calls]"
    and "n' = (if calls = [] then END else TOOL_NODE)"
proof (cases "llm a (SystemMessage system_prompt # h)")
  case (Inl e)
  with assms step_chat_fails [of a h e] show ?thesis by simp
next
  case (Inr reply)
  obtain c calls where r: "reply = (c, calls)" by (cases reply)
  with Inr assms step_chat(1) [of a h c calls] that show ?thesis by simp
qed

text \<open>
  In a run, a state handed to the execution node ends with an assistant message that
  requests at least one tool.
\<close>

lemma step_requests_tools:
  assumes "step a n h = Inr (n', h')" and "n' = TOOL_NODE"
  shows "requests_tools h'"
proof (cases n)
  case START
  with assms step_start show ?thesis by blast
next
  case CHAT_NODE
  with assms obtain c calls where reply: "llm a (SystemMessage system_prompt # h) = Inr (c, calls)"
    and h': "h' = add_messages h [AIMessage c calls]"
    and n': "n' = (if calls = [] then END else TOOL_NODE)"
    by (auto elim: step_chat_cases)
  have "h' \<noteq> []" unfolding h' using reply by (rule step_chat(2))
  moreover have "m_type (last h') = AI" unfolding h' using reply by (rule step_chat(3))
  moreover have "m_tool_calls (last h') = calls" unfolding h' using reply by (rule step_chat(5))
  moreover from n' assms(2) have "calls \<noteq> []" by (auto split: if_splits)
  ultimately show ?thesis by (simp add: requests_tools_def)
next
  case TOOL_NODE
  with assms step_tool_next show ?thesis by blast
next
  case END
  with assms show ?thesis
    by (auto simp: step_def run_node_def next_node_def edges_def conditional_edges_def Let_def)
qed

lemma run_graph_tool_states:
  "run_graph a k n h = (tr, r) \<Longrightarrow> (n', h') \<in> set tr \<Longrightarrow> n' = TOOL_NODE \<Longrightarrow> requests_tools h'"
proof (induction k arbitrary: n h tr r)
  case 0
  then show ?case by (auto split: if_splits)
next
  case (Suc k)
  show ?case
  proof (cases "n = END")
    case True
    with Suc.prems show ?thesis by simp
  next
    case False
    show ?thesis
    proof (cases "step a n h")
      case (Inl e)
      with Suc.prems False show ?thesis by simp
    next
      case (Inr c)
      obtain n1 h1 where c: "c = (n1, h1)" by (cases c)
      obtain tr1 r1 where rest: "run_graph a k n1 h1 = (tr1, r1)"
        by (cases "run_graph a k n1 h1")
      with Suc.prems False Inr c have "tr = (n1, h1) # tr1" by simp
      with Suc.prems(2) have "(n', h') = (n1, h1) \<or> (n', h') \<in> set tr1" by simp
      then show ?thesis
      proof
        assume "(n', h') = (n1, h1)"
        with Inr c Suc.prems(3) step_requests_tools [of a n h n1 h1] show ?thesis by simp
      next
        assume "(n', h') \<in> set tr1"
        from Suc.IH [OF rest this Suc.prems(3)] show ?thesis .
      qed
    qed
  qed
qed

subsection \<open>The state machine of the orchestrator\<close>

text \<open>
  Claim C4. The node \<open>CHAT_NODE\<close> is the reasoning state, \<open>TOOL_NODE\<close> the executing
  state and \<open>END\<close> the terminal one. When the model answers, the reasoning step appends
  the assistant message and goes to \<open>TOOL_NODE\<close> exactly when that message requests at
  least one tool, and to \<open>END\<close> otherwise. Every executing step that completes goes back to
  \<open>CHAT_NODE\<close>, with the history the tool results were merged into. In every run, a state
  handed to \<open>TOOL_NODE\<close> ends with an assistant message that requests a tool.
\<close>

theorem orchestrator_transitions:
  "(\<forall>c calls. llm a (SystemMessage system_prompt # h) = Inr (c, calls) \<longrightarrow>
      (\<exists>h'. step a CHAT_NODE h = Inr (if calls = [] then END else TOOL_NODE, h')
         \<and> h' \<noteq> [] \<and> m_type (last h') = AI \<and> m_content (last h') = c
         \<and> m_tool_calls (last h') = calls))
   \<and> (\<forall>n' h'. step a CHAT_NODE h = Inr (n', h') \<longrightarrow>
         (n' = TOOL_NODE \<longleftrightarrow> m_tool_calls (last h') \<noteq> [])
       \<and> (n' = END \<longleftrightarrow> m_tool_calls (last h') = []))
   \<and> (\<forall>n' h'. step a TOOL_NODE h = Inr (n', h') \<longrightarrow>
         n' = CHAT_NODE \<and> h' = add_messages h (map (run_tool a) (m_tool_calls (last h))))
   \<and> (\<forall>k n tr r n' h'. run_graph a k n h = (tr, r) \<longrightarrow> (n', h') \<in> set tr \<longrightarrow>
         n' = TOOL_NODE \<longrightarrow> requests_tools h')"
proof (intro conjI allI impI)
  fix c calls
  assume reply: "llm a (SystemMessage system_prompt # h) = Inr (c, calls)"
  show "\<exists>h'. step a CHAT_NODE h = Inr (if calls = [] then END else TOOL_NODE, h')
         \<and> h' \<noteq> [] \<and> m_type (last h') = AI \<and> m_content (last h') = c
         \<and> m_tool_calls (last h') = calls"
    using step_chat [OF reply] by blast
next
  fix n' h'
  assume s: "step a CHAT_NODE h = Inr (n', h')"
  then obtain c calls where reply: "llm a (SystemMessage system_prompt # h) = Inr (c, calls)"
    and h': "h' = add_messages h [AIMessage c calls]"
    and n': "n' = (if calls = [] then END else TOOL_NODE)"
    by (auto elim: step_chat_cases)
  have k: "m_tool_calls (last h') = calls" unfolding h' using reply by (rule step_chat(5))
  show "n' = TOOL_NODE \<longleftrightarrow> m_tool_calls (last h') \<noteq> []" using n' k by simp
  show "n' = END \<longleftrightarrow> m_tool_calls (last h') = []" using n' k by simp
next
  fix n' h'
  assume s: "step a TOOL_NODE h = Inr (n', h')"
  then show "n' = CHAT_NODE" by (rule step_tool_next)
  from s show "h' = add_messages h (map (run_tool a) (m_tool_calls (last h)))"
    by (auto simp: step_def run_node_def tool_node_def Let_def next_node_simps
          split: sum.splits if_splits)
next
  fix k n tr r n' h'
  assume "run_graph a k n h = (tr, r)" "(n', h') \<in> set tr" "n' = TOOL_NODE"
  then show "requests_tools h'" by (rule run_graph_tool_states)
qed

subsection \<open>The execution step\<close>

text \<open>
  Claim C5. On a history that ends with an assistant message with the tool calls
  \<open>calls\<close>, the execution step completes and appends exactly one message per call: the
  message at place \<open>i\<close> after the old history is a tool result that answers the call at
  place \<open>i\<close> (its identifier and its tool name) and carries what running that call gave.
  The old history stays in front of them.
\<close>

theorem tool_results_in_request_order:
  assumes "h \<noteq> []" and "m_type (last h) = AI" and "m_tool_calls (last h) = calls"
  shows "\<exists>h'. step a TOOL_NODE h = Inr (CHAT_NODE, h')
           \<and> length h' = length h + length calls
           \<and> (\<forall>i<length calls.
                 m_type (h' ! (length h + i)) = Tool
               \<and> m_tool_call_id (h' ! (length h + i)) = tc_id (calls ! i)
               \<and> m_name (h' ! (length h + i)) = tc_name (calls ! i)
               \<and> m_content (h' ! (length h + i)) = m_content (run_tool a (calls ! i)))
           \<and> (all_ids h \<longrightarrow> take (length h) h' = h)"
proof -
  let ?new = "map (run_tool a) calls"
  let ?h' = "add_messages h ?new"
  have none: "\<forall>m\<in>set ?new. m_id m = None" by simp
  have s: "step a TOOL_NODE h = Inr (CHAT_NODE, ?h')"
    using step_tool [OF assms(1,2)] assms(3) by simp
  have len: "length ?h' = length h + length calls"
    using add_messages_length [OF none] by simp
  have nth: "m_type (?h' ! (length h + i)) = Tool
           \<and> m_tool_call_id (?h' ! (length h + i)) = tc_id (calls ! i)
           \<and> m_name (?h' ! (length h + i)) = tc_name (calls ! i)
           \<and> m_content (?h' ! (length h + i)) = m_content (run_tool a (calls ! i))"
    if "i < length calls" for i
  proof -
    from that have "i < length ?new" by simp
    from add_messages_nth_new [OF none this] that show ?thesis by simp
  qed
  have front: "take (length h) ?h' = h" if "all_ids h"
    using add_messages_append [OF none that] by simp
  from s len nth front show ?thesis by blast
qed

subsection \<open>A turn without tool calls\<close>

lemma run_graph_END: "run_graph a k END st = ([], Inr st)"
  by (cases k) simp_all

text \<open>
  Claim C6. A turn takes the history saved for the thread (empty when there is none) and
  one user message. If the model's answer to it requests no tool (and the runtime allows at
  least one step), the invocation returns and saves a history with exactly two messages
  more: the user message and the assistant message, after the messages saved before.
\<close>

theorem plain_turn_adds_two:
  assumes "saved = (case saver thread_id of None \<Rightarrow> [] | Some ms \<Rightarrow> ms)"
    and "llm a (SystemMessage system_prompt # add_messages saved [HumanMessage text]) = Inr (c, [])"
    and "0 < recursion_limit a"
  shows "\<exists>final. ainvoke a saver thread_id [HumanMessage text] = (saver(thread_id \<mapsto> final), Inr final)
           \<and> length final = length saved + 2
           \<and> m_type (final ! length saved) = Human \<and> m_content (final ! length saved) = text
           \<and> m_type (final ! (length saved + 1)) = AI \<and> m_content (final ! (length saved + 1)) = c
           \<and> m_tool_calls (final ! (length saved + 1)) = []"
proof -
  let ?s0 = "add_messages saved [HumanMessage text]"
  let ?s1 = "add_messages ?s0 [AIMessage c []]"
  obtain k where k: "recursion_limit a = Suc k"
    using assms(3) by (cases "recursion_limit a") simp_all
  have st: "step a CHAT_NODE ?s0 = Inr (END, ?s1)"
    using step_chat(1) [OF assms(2)] by simp
  have run: "run_graph a (recursion_limit a) CHAT_NODE ?s0 = ([(END, ?s1)], Inr ?s1)"
    by (simp add: k st run_graph_END)
  have "ainvoke a saver thread_id [HumanMessage text]
          = (case run_graph a (recursion_limit a) CHAT_NODE ?s0 of
               (tr, r) \<Rightarrow> (saver(thread_id \<mapsto> snd (last ((CHAT_NODE, ?s0) # tr))), r))"
    unfolding assms(1) by (simp add: ainvoke_def Let_def next_node_simps)
  then have inv: "ainvoke a saver thread_id [HumanMessage text] = (saver(thread_id \<mapsto> ?s1), Inr ?s1)"
    by (simp add: run)
  have len0: "length ?s0 = length saved + 1"
    by (simp add: add_messages_length)
  have len1: "length ?s1 = length saved + 2"
    by (simp add: add_messages_length len0)
  have human0: "?s0 ! length saved
      = (HumanMessage text)\<lparr>m_id := Some (next_id (saved @ [HumanMessage text]) + missing_ids saved)\<rparr>"
    using add_messages_nth_new [of "[HumanMessage text]" 0 saved] by simp
  have all0: "all_ids ?s0" by (simp add: add_messages_all_ids)
  have s1: "?s1 = ?s0 @ assign_ids (next_id (?s0 @ [AIMessage c []])) [AIMessage c []]"
    using all0 by (simp add: add_messages_append)
  have human: "?s1 ! length saved
      = (HumanMessage text)\<lparr>m_id := Some (next_id (saved @ [HumanMessage text]) + missing_ids saved)\<rparr>"
    by (subst s1) (simp add: nth_append len0 human0)
  have ai: "?s1 ! (length saved + 1)
      = (AIMessage c [])\<lparr>m_id := Some (next_id (?s0 @ [AIMessage c []]))\<rparr>"
    by (subst s1) (simp add: nth_append len0)
  have "m_type (?s1 ! length saved) = Human" "m_content (?s1 ! length saved) = text"
    "m_type (?s1 ! (length saved + 1)) = AI" "m_content (?s1 ! (length saved + 1)) = c"
    "m_tool_calls (?s1 ! (length saved + 1)) = []"
    unfolding human ai by (simp_all add: HumanMessage_def AIMessage_def)
  with inv len1 show ?thesis by blast
qed

subsection \<open>The history only grows\<close>

lemma step_prefix:
  assumes "all_ids h" and "step a n h = Inr (n', h')"
  shows "prefix h h' \<and> all_ids h'"
proof -
  from assms(2) obtain upd where u: "run_node a n h = Inr upd" and h': "h' = add_messages h upd"
    by (auto simp: step_def Let_def split: sum.splits)
  from u have none: "\<forall>m\<in>set upd. m_id m = None" by (rule run_node_no_ids)
  from add_messages_append [OF none assms(1)] add_messages_all_ids [OF none, of h]
  show ?thesis by (simp add: h')
qed

lemma run_graph_prefix:
  "all_ids h \<Longrightarrow> run_graph a k n h = (tr, r) \<Longrightarrow>
     (\<forall>c\<in>set tr. prefix h (snd c) \<and> all_ids (snd c))
   \<and> (\<forall>final. r = Inr final \<longrightarrow> prefix h final \<and> all_ids final)"
proof (induction k arbitrary: n h tr r)
  case 0
  then show ?case by (auto split: if_splits)
next
  case (Suc k)
  show ?case
  proof (cases "n = END")
    case True
    with Suc.prems show ?thesis by auto
  next
    case False
    show ?thesis
    proof (cases "step a n h")
      case (Inl e)
      with Suc.prems False show ?thesis by auto
    next
      case (Inr c)
      obtain n1 h1 where c: "c = (n1, h1)" by (cases c)
      obtain tr1 r1 where rest: "run_graph a k n1 h1 = (tr1, r1)"
        by (cases "run_graph a k n1 h1")
      from Suc.prems False Inr c rest have tr: "tr = (n1, h1) # tr1" and r: "r = r1" by simp_all
      from step_prefix [OF Suc.prems(1)] Inr c have p1: "prefix h h1" and a1: "all_ids h1"
        by simp_all
      from Suc.IH [OF a1 rest]
      have ih: "\<forall>c\<in>set tr1. prefix h1 (snd c) \<and> all_ids (snd c)"
        "\<forall>final. r1 = Inr final \<longrightarrow> prefix h1 final \<and> all_ids final"
        by simp_all
      show ?thesis
        unfolding tr r using p1 a1 ih by (auto intro: prefix_order.trans)
    qed
  qed
qed

text \<open>
  Claim C7. On a history whose messages all bear an identifier (as every history the
  reducer produced), each step of the graph, the merge of a new input and every run keep the
  history as a prefix of the new one: each message that was there is still there, unchanged
  and at its place, and new messages come after it.
\<close>

theorem history_append_only:
  assumes "all_ids h"
  shows "(\<forall>n n' h'. step a n h = Inr (n', h') \<longrightarrow> prefix h h' \<and> all_ids h')
       \<and> (\<forall>text. prefix h (add_messages h [HumanMessage text])
                \<and> all_ids (add_messages h [HumanMessage text]))
       \<and> (\<forall>k n tr r. run_graph a k n h = (tr, r) \<longrightarrow>
             (\<forall>c\<in>set tr. prefix h (snd c) \<and> all_ids (snd c))
           \<and> (\<forall>final. r = Inr final \<longrightarrow> prefix h final \<and> all_ids final))"
proof (intro conjI allI impI)
  fix n n' h'
  assume "step a n h = Inr (n', h')"
  with assms show "prefix h h'" "all_ids h'" using step_prefix by blast+
next
  fix content
  show "prefix h (add_messages h [HumanMessage content])"
    using assms by (simp add: add_messages_append)
  show "all_ids (add_messages h [HumanMessage content])"
    by (simp add: add_messages_all_ids)
next
  fix k n tr r
  assume run: "run_graph a k n h = (tr, r)"
  from run_graph_prefix [OF assms run]
  show "\<forall>c\<in>set tr. prefix h (snd c) \<and> all_ids (snd c)" by (rule conjunct1)
  fix final
  assume "r = Inr final"
  with run_graph_prefix [OF assms run] show "prefix h final" "all_ids final" by blast+
qed


theorem orchestrator_transitions_witness:
  "llm search_agent (SystemMessage system_prompt # asked) = Inr ([], search_calls)
   \<and> (\<exists>h'. step search_agent CHAT_NODE asked = Inr (TOOL_NODE, h')
          \<and> m_type (last h') = AI \<and> m_tool_calls (last h') = search_calls)
   \<and> llm plain_agent (SystemMessage system_prompt # asked) = Inr (''Paris'', [])
   \<and> (\<exists>h'. step plain_agent CHAT_NODE asked = Inr (END, h')
          \<and> m_type (last h') = AI \<and> m_tool_calls (last h') = [])
   \<and> step search_agent TOOL_NODE requested
       = Inr (CHAT_NODE, add_messages requested (map (run_tool search_agent) search_calls))
   \<and> map fst (fst (run_graph search_agent 25 CHAT_NODE asked)) = [TOOL_NODE, CHAT_NODE, END]"
proof -
  have r1: "llm search_agent (SystemMessage system_prompt # asked) = Inr ([], search_calls)"
    by code_simp
  have r2: "llm plain_agent (SystemMessage system_prompt # asked) = Inr (''Paris'', [])"
    by (simp add: plain_agent_def)
  have ne: "search_calls \<noteq> []" by (simp add: search_calls_def)
  from orchestrator_transitions [of search_agent asked]
  have "\<forall>c calls. llm search_agent (SystemMessage system_prompt # asked) = Inr (c, calls) \<longrightarrow>
      (\<exists>h'. step search_agent CHAT_NODE asked = Inr (if calls = [] then END else TOOL_NODE, h')
         \<and> h' \<noteq> [] \<and> m_type (last h') = AI \<and> m_content (last h') = c
         \<and> m_tool_calls (last h') = calls)"
    by (rule conjunct1)
  with r1 have "\<exists>h'. step search_agent CHAT_NODE asked
         = Inr (if search_calls = [] then END else TOOL_NODE, h')
         \<and> h' \<noteq> [] \<and> m_type (last h') = AI \<and> m_content (last h') = []
         \<and> m_tool_calls (last h') = search_calls"
    by blast
  with ne have w1: "\<exists>h'. step search_agent CHAT_NODE asked = Inr (TOOL_NODE, h')
          \<and> m_type (last h') = AI \<and> m_tool_calls (last h') = search_calls"
    by auto
  from orchestrator_transitions [of plain_agent asked]
  have "\<forall>c calls. llm plain_agent (SystemMessage system_prompt # asked) = Inr (c, calls) \<longrightarrow>
      (\<exists>h'. step plain_agent CHAT_NODE asked = Inr (if calls = [] then END else TOOL_NODE, h')
         \<and> h' \<noteq> [] \<and> m_type (last h') = AI \<and> m_content (last h') = c
         \<and> m_tool_calls (last h') = calls)"
    by (rule conjunct1)
  with r2 have "\<exists>h'. step plain_agent CHAT_NODE asked
         = Inr (if ([]::tool_call list) = [] then END else TOOL_NODE, h')
         \<and> h' \<noteq> [] \<and> m_type (last h') = AI \<and> m_content (last h') = ''Paris''
         \<and> m_tool_calls (last h') = []"
    by blast
  then have w2: "\<exists>h'. step plain_agent CHAT_NODE asked = Inr (END, h')
          \<and> m_type (last h') = AI \<and> m_tool_calls (last h') = []"
    by auto
  have w3: "step search_agent TOOL_NODE requested
       = Inr (CHAT_NODE, add_messages requested (map (run_tool search_agent) search_calls))"
    by code_simp
  have w4: "map fst (fst (run_graph search_agent 25 CHAT_NODE asked)) = [TOOL_NODE, CHAT_NODE, END]"
    by code_simp
  from r1 w1 r2 w2 w3 w4 show ?thesis by (intro conjI)
qed

theorem tool_results_in_request_order_witness:
  "requested \<noteq> [] \<and> m_type (last requested) = AI \<and> m_tool_calls (last requested) = search_calls
   \<and> length search_calls = 2
   \<and> (\<exists>h'. step search_agent TOOL_NODE requested = Inr (CHAT_NODE, h')
          \<and> length h' = length requested + 2
          \<and> m_type (h' ! (length requested + 0)) = Tool
          \<and> m_tool_call_id (h' ! (length requested + 0)) = ''call-1''
          \<and> m_content (h' ! (length requested + 0)) = ''snippet about capital of France''
          \<and> m_type (h' ! (length requested + 1)) = Tool
          \<and> m_tool_call_id (h' ! (length requested + 1)) = ''call-2''
          \<and> take (length requested) h' = requested)"
proof -
  have h1: "requested \<noteq> []" by code_simp
  have h2: "m_type (last requested) = AI" by code_simp
  have h3: "m_tool_calls (last requested) = search_calls" by code_simp
  have n: "length search_calls = 2" by (simp add: search_calls_def)
  have ids: "all_ids requested" by code_simp
  have c0: "tc_id (search_calls ! 0) = ''call-1''" "tc_id (search_calls ! 1) = ''call-2''"
    by (simp_all add: search_calls_def)
  have out: "m_content (run_tool search_agent (search_calls ! 0)) = ''snippet about capital of France''"
    by code_simp
  from tool_results_in_request_order [OF h1 h2 h3, of search_agent]
  obtain h' where s: "step search_agent TOOL_NODE requested = Inr (CHAT_NODE, h')"
    and len: "length h' = length requested + length search_calls"
    and each: "\<forall>i<length search_calls.
                 m_type (h' ! (length requested + i)) = Tool
               \<and> m_tool_call_id (h' ! (length requested + i)) = tc_id (search_calls ! i)
               \<and> m_name (h' ! (length requested + i)) = tc_name (search_calls ! i)
               \<and> m_content (h' ! (length requested + i)) = m_content (run_tool search_agent (search_calls ! i))"
    and front: "all_ids requested \<longrightarrow> take (length requested) h' = requested"
    by blast
  have i0: "0 < length search_calls" and i1: "1 < length search_calls" using n by simp_all
  from each i0 have e0: "m_type (h' ! (length requested + 0)) = Tool"
    "m_tool_call_id (h' ! (length requested + 0)) = ''call-1''"
    "m_content (h' ! (length requested + 0)) = ''snippet about capital of France''"
    using c0(1) out by auto
  from each i1 have e1: "m_type (h' ! (length requested + 1)) = Tool"
    "m_tool_call_id (h' ! (length requested + 1)) = ''call-2''"
    using c0(2) by auto
  from front ids have f: "take (length requested) h' = requested" by (rule mp)
  from len n have len2: "length h' = length requested + 2" by simp
  from s len2 e0 e1 f
  have "\<exists>h'. step search_agent TOOL_NODE requested = Inr (CHAT_NODE, h')
          \<and> length h' = length requested + 2
          \<and> m_type (h' ! (length requested + 0)) = Tool
          \<and> m_tool_call_id (h' ! (length requested + 0)) = ''call-1''
          \<and> m_content (h' ! (length requested + 0)) = ''snippet about capital of France''
          \<and> m_type (h' ! (length requested + 1)) = Tool
          \<and> m_tool_call_id (h' ! (length requested + 1)) = ''call-2''
          \<and> take (length requested) h' = requested"
    by (intro exI [of _ h'] conjI)
  with h1 h2 h3 n show ?thesis by (intro conjI)
qed

theorem plain_turn_adds_two_witness:
  "([]::message list) = (case Map.empty ''wiki-session'' of None \<Rightarrow> [] | Some ms \<Rightarrow> ms)
   \<and> llm plain_agent (SystemMessage system_prompt
        # add_messages [] [HumanMessage ''What is the capital of France?'']) = Inr (''Paris'', [])
   \<and> 0 < recursion_limit plain_agent
   \<and> (\<exists>final. ainvoke plain_agent Map.empty ''wiki-session''
                  [HumanMessage ''What is the capital of France?'']
                = (Map.empty(''wiki-session'' \<mapsto> final), Inr final)
          \<and> length final = 2
          \<and> m_type (final ! 0) = Human \<and> m_content (final ! 0) = ''What is the capital of France?''
          \<and> m_type (final ! 1) = AI \<and> m_content (final ! 1) = ''Paris'')"
proof -
  have h1: "([]::message list) = (case Map.empty ''wiki-session'' of None \<Rightarrow> [] | Some ms \<Rightarrow> ms)"
    by simp
  have h2: "llm plain_agent (SystemMessage system_prompt
        # add_messages [] [HumanMessage ''What is the capital of France?'']) = Inr (''Paris'', [])"
    by (simp add: plain_agent_def)
  have h3: "0 < recursion_limit plain_agent" by (simp add: plain_agent_def)
  from plain_turn_adds_two [OF h1 h2 h3]
  obtain final where "ainvoke plain_agent Map.empty ''wiki-session''
                  [HumanMessage ''What is the capital of France?'']
                = (Map.empty(''wiki-session'' \<mapsto> final), Inr final)"
    "length final = length ([]::message list) + 2"
    "m_type (final ! length ([]::message list)) = Human"
    "m_content (final ! length ([]::message list)) = ''What is the capital of France?''"
    "m_type (final ! (length ([]::message list) + 1)) = AI"
    "m_content (final ! (length ([]::message list) + 1)) = ''Paris''"
    by blast
  then have "\<exists>final. ainvoke plain_agent Map.empty ''wiki-session''
                  [HumanMessage ''What is the capital of France?'']
                = (Map.empty(''wiki-session'' \<mapsto> final), Inr final)
          \<and> length final = 2
          \<and> m_type (final ! 0) = Human \<and> m_content (final ! 0) = ''What is the capital of France?''
          \<and> m_type (final ! 1) = AI \<and> m_content (final ! 1) = ''Paris''"
    by (intro exI [of _ final]) simp
  with h1 h2 h3 show ?thesis by (intro conjI)
qed

theorem history_append_only_witness:
  "all_ids asked
   \<and> step search_agent CHAT_NODE asked = Inr (TOOL_NODE, requested)
   \<and> length asked = 1 \<and> length requested = 2
   \<and> prefix asked requested \<and> all_ids requested"
proof -
  have h: "all_ids asked" by code_simp
  have s: "step search_agent CHAT_NODE asked = Inr (TOOL_NODE, requested)" by code_simp
  have l: "length asked = 1" "length requested = 2" by code_simp+
  from history_append_only [OF h, of search_agent]
  have "\<forall>n n' h'. step search_agent n asked = Inr (n', h') \<longrightarrow> prefix asked h' \<and> all_ids h'"
    by (rule conjunct1)
  with s have "prefix asked requested \<and> all_ids requested" by blast
  with h s l show ?thesis by (intro conjI) simp_all
qed

subsection \<open>One thread for every invocation\<close>












end
